theory Spec2Isabelle
  imports Complex_Main
begin

section \<open>Values of the source language\<close>

text \<open>
  A TypeScript \<open>number\<close> is an IEEE-754 double. \<open>Num r\<close> is the finite double
  whose exact value is the rational \<open>r\<close> (both zeros are \<open>Num 0\<close>). The arithmetic is
  written out only where it is exact or where IEEE fixes it without rounding:
  \<^item> the safe integers, those of absolute value at most \<open>2^53\<close>, are all doubles, and
    an operation on two of them whose exact result is a safe integer returns it;
  \<^item> when the operands are safe integers and the exact result \<open>r\<close> is not one, the
    result is the double nearest to \<open>r\<close>, which is finite; it is written \<open>Approx r\<close>
    and not computed further;
  \<^item> \<open>NaN\<close> and the infinities behave as IEEE has them: \<open>0 / 0\<close> is \<open>NaN\<close>, as
    are \<open>Infinity - Infinity\<close> and \<open>0 * Infinity\<close>;
  \<^item> in every other case the result is some double the model does not determine:
    \<open>Inexact\<close>.
\<close>

datatype jsnum = Num rat | Approx rat | Infinity | NegInfinity | NaN | Inexact

definition safe :: "rat \<Rightarrow> bool" where
  "safe x \<longleftrightarrow> of_int \<lfloor>x\<rfloor> = x \<and> \<bar>x\<bar> \<le> 9007199254740992"

definition jsign :: "jsnum \<Rightarrow> int" where
  "jsign x = (case x of Num a \<Rightarrow> (if a < 0 then -1 else if a = 0 then 0 else 1)
                | Infinity \<Rightarrow> 1 | NegInfinity \<Rightarrow> -1 | _ \<Rightarrow> 0)"

definition jinf :: "int \<Rightarrow> jsnum" where
  "jinf sg = (if sg < 0 then NegInfinity else Infinity)"

text \<open>\<open>x + y\<close>\<close>

fun jadd :: "jsnum \<Rightarrow> jsnum \<Rightarrow> jsnum" where
  "jadd NaN _ = NaN"
| "jadd _ NaN = NaN"
| "jadd (Num a) (Num b) =
     (if safe a \<and> safe b then (if safe (a + b) then Num (a + b) else Approx (a + b))
      else Inexact)"
| "jadd Infinity NegInfinity = NaN"
| "jadd NegInfinity Infinity = NaN"
| "jadd Inexact _ = Inexact"
| "jadd _ Inexact = Inexact"
| "jadd Infinity _ = Infinity"
| "jadd _ Infinity = Infinity"
| "jadd NegInfinity _ = NegInfinity"
| "jadd _ NegInfinity = NegInfinity"
| "jadd _ _ = Inexact"

text \<open>\<open>x * y\<close>\<close>

fun jmul :: "jsnum \<Rightarrow> jsnum \<Rightarrow> jsnum" where
  "jmul NaN _ = NaN"
| "jmul _ NaN = NaN"
| "jmul (Num a) (Num b) =
     (if safe a \<and> safe b then (if safe (a * b) then Num (a * b) else Approx (a * b))
      else Inexact)"
| "jmul Inexact _ = Inexact"
| "jmul _ Inexact = Inexact"
| "jmul (Approx a) _ = Inexact"
| "jmul _ (Approx b) = Inexact"
| "jmul x y = (if jsign x * jsign y = 0 then NaN else jinf (jsign x * jsign y))"

text \<open>
  \<open>x / y\<close>. A non-zero number divided by zero is an infinity whose sign depends on the
  sign of the zero, which \<open>Num 0\<close> does not keep.
\<close>

fun jdiv :: "jsnum \<Rightarrow> jsnum \<Rightarrow> jsnum" where
  "jdiv NaN _ = NaN"
| "jdiv _ NaN = NaN"
| "jdiv (Num a) (Num b) =
     (if b = 0 then (if a = 0 then NaN else Inexact)
      else if safe a \<and> safe b then (if safe (a / b) then Num (a / b) else Approx (a / b))
      else Inexact)"
| "jdiv Inexact _ = Inexact"
| "jdiv _ Inexact = Inexact"
| "jdiv (Approx a) _ = Inexact"
| "jdiv _ (Approx b) = Inexact"
| "jdiv (Num a) _ = Num 0"
| "jdiv x (Num b) = (if b = 0 then Inexact else jinf (jsign x * jsign (Num b)))"
| "jdiv _ _ = NaN"

section \<open>Data types\<close>

record RowData =
  id_row :: int
  product :: string
  category :: string
  price :: jsnum
  quantity :: jsnum
  inStock :: bool
  lastUpdated :: string

subsection \<open>Event payloads\<close>

record GridInitialized =
  totalRows_init :: nat
  columns :: "string list"
  gridVersion :: string

record VisibleViewport =
  firstRowIndex :: int
  lastRowIndex :: int
  visibleRowCount :: nat

record VisibleRows =
  viewport :: VisibleViewport
  visibleRows :: "RowData list"
  visibleProductIds :: "int list"
  totalValue :: jsnum

record SelectedRows =
  selectedCount :: nat
  selectedRows :: "RowData list"
  selectedIds :: "int list"
  totalSelectedValue :: jsnum

record GridMetadata =
  totalRows :: nat
  displayedRows :: int
  selectedRows_meta :: nat

record ColumnInfo =
  colId :: string
  width :: "int option"
  hide :: "bool option"
  sort_col :: "string option"
  sortIndex :: "int option"
  pinned :: "string option"

type_synonym FilterModel = "(string \<times> string) list"

record FullViewport =
  firstRow_full :: int
  lastRow_full :: int

record Aggregations =
  totalInventoryValue :: jsnum
  avgPrice :: jsnum
  inStockCount :: nat
  outOfStockCount :: nat

record FullGridState =
  gridMetadata :: GridMetadata
  allData :: "RowData list"
  columnState :: "ColumnInfo list"
  activeFilters :: FilterModel
  viewport_full :: FullViewport
  aggregations :: Aggregations

record ScrollViewport =
  firstRow :: int
  lastRow :: int
  visibleRowCount_scroll :: int

record ScrollPosition =
  top_pos :: int
  left_pos :: int

record GridScrolled =
  scrollDirection :: string
  viewport_scroll :: ScrollViewport
  scrollPosition :: ScrollPosition

record RowSelected =
  rowId :: int
  rowData_sel :: RowData
  selectionSource :: string

text \<open>The \<open>data: unknown\<close> field of an event holds one of the six payload shapes.\<close>

datatype payload =
    Grid_initialized GridInitialized
  | Visible_rows_extracted VisibleRows
  | Selected_rows_extracted SelectedRows
  | Full_grid_state_extracted FullGridState
  | Grid_scrolled GridScrolled
  | Row_selected RowSelected

text \<open>
  \<open>interface TelemetryEvent\<close>. The identifier is the value drawn from
  \<open>crypto.randomUUID()\<close> and the timestamp the reading of the clock, in milliseconds.
\<close>

record TelemetryEvent =
  id_event :: nat
  eventType :: string
  timestamp :: nat
  data :: payload

section \<open>The telemetry service\<close>

text \<open>
  Arrays are objects: two names may denote the same array, and \<open>unshift\<close>, \<open>pop\<close> and the
  assignment to \<open>length\<close> change it in place. The store keeps every array of events under
  its address; \<open>[...xs]\<close> allocates a new one. The world beside the store is the console
  (each \<open>console.log\<close> appends), the clock and the supply of fresh identifiers.
\<close>

type_synonym addr = nat

record world =
  heap :: "TelemetryEvent list list"
  console :: "TelemetryEvent list"
  clock :: nat
  uuid :: nat

definition alloc :: "TelemetryEvent list \<Rightarrow> 'a world_scheme \<Rightarrow> addr \<times> 'a world_scheme" where
  "alloc xs w = (length (heap w), w\<lparr>heap := heap w @ [xs]\<rparr>)"

definition deref :: "'a world_scheme \<Rightarrow> addr \<Rightarrow> TelemetryEvent list" where
  "deref w a = heap w ! a"

definition unshift :: "addr \<Rightarrow> TelemetryEvent \<Rightarrow> 'a world_scheme \<Rightarrow> 'a world_scheme" where
  "unshift a e w = w\<lparr>heap := (heap w)[a := e # deref w a]\<rparr>"

definition pop :: "addr \<Rightarrow> 'a world_scheme \<Rightarrow> 'a world_scheme" where
  "pop a w = w\<lparr>heap := (heap w)[a := butlast (deref w a)]\<rparr>"

definition set_length_0 :: "addr \<Rightarrow> 'a world_scheme \<Rightarrow> 'a world_scheme" where
  "set_length_0 a w = w\<lparr>heap := (heap w)[a := []]\<rparr>"

text \<open>
  The object returned by \<open>createTelemetryService\<close>: its field \<open>events\<close> is the array that
  \<open>send\<close> and \<open>clear\<close> close over, not a copy of it.
\<close>

record TelemetryService =
  events :: addr

definition createTelemetryService :: "'a world_scheme \<Rightarrow> TelemetryService \<times> 'a world_scheme" where
  "createTelemetryService w = (let (a, w1) = alloc [] w in (\<lparr>events = a\<rparr>, w1))"

definition send ::
  "TelemetryService \<Rightarrow> string \<Rightarrow> payload \<Rightarrow> 'a world_scheme \<Rightarrow> TelemetryEvent \<times> 'a world_scheme" where
  "send svc eventType' data' w =
     (let event = \<lparr>id_event = uuid w, eventType = eventType', timestamp = clock w, data = data'\<rparr>;
          w1 = w\<lparr>uuid := uuid w + 1\<rparr>;
          w2 = unshift (events svc) event w1;
          w3 = (if length (deref w2 (events svc)) > 50 then pop (events svc) w2 else w2);
          w4 = w3\<lparr>console := console w3 @ [event]\<rparr>
      in (event, w4))"

definition clear :: "TelemetryService \<Rightarrow> 'a world_scheme \<Rightarrow> 'a world_scheme" where
  "clear svc w = set_length_0 (events svc) w"

text \<open>A sequence of \<open>send\<close> calls, with the events they return, in call order.\<close>

fun sends ::
  "TelemetryService \<Rightarrow> (string \<times> payload) list \<Rightarrow> 'a world_scheme
     \<Rightarrow> TelemetryEvent list \<times> 'a world_scheme" where
  "sends svc [] w = ([], w)"
| "sends svc (c # cs) w =
     (let (e, w1) = send svc (fst c) (snd c) w;
          (es, w2) = sends svc cs w1
      in (e # es, w2))"

section \<open>The grid, as the component sees it\<close>

text \<open>
  The grid is an external component. Its API object is queried and never owned: each call
  reads the state the grid has at the time of the call, so the grid is a value of the
  world that changes between calls, one field per query the component makes.
  \<open>forEachNode\<close> is the list of row nodes in the order the grid visits them.
\<close>

record RowNode =
  data_node :: "RowData option"
  isSelected :: bool

record Grid =
  getFirstDisplayedRowIndex :: int
  getLastDisplayedRowIndex :: int
  getDisplayedRowAtIndex :: "int \<Rightarrow> RowNode option"
  forEachNode :: "RowNode list"
  getSelectedRows :: "RowData list"
  getColumnState :: "ColumnInfo list"
  getFilterModel :: FilterModel
  getDisplayedRowCount :: int

record RowSelectedEvent =
  node :: RowNode
  data_ev :: "RowData option"

record BodyScrollEvent =
  direction :: string
  top_ev :: int
  left_ev :: int

text \<open>
  The value of the state variable \<open>gridApi\<close> when it is not \<open>null\<close>: the reference to
  the API object of the one grid the component renders.
\<close>

datatype GridApi = GridApi

section \<open>The component\<close>

record Stats =
  totalEvents :: nat
  visibleRows_stat :: nat
  selectedRows_stat :: nat

text \<open>
  The arrow function handed to \<open>setTimeout\<close> in \<open>onBodyScroll\<close>, with the scroll event
  it closes over. A pending timeout is its handle, the time it is due and its callback.
\<close>

datatype callback = ScrollTimeout BodyScrollEvent

type_synonym timer = "nat \<times> nat \<times> callback"

text \<open>
  The whole state: the world, the module-level service \<open>telemetry\<close>, the grid, the
  browser's pending timeouts, and the state variables and the ref of \<open>App\<close>.
  \<open>telemetryEvents\<close> holds a reference to an array, as the state variable does.
  A state update (\<open>setStats\<close>, \<open>setGridApi\<close>, \<open>setTelemetryEvents\<close>) is taken as
  applied when it is called, so a handler sees the values of the latest render.
\<close>

record app = world +
  telemetry :: TelemetryService
  grid :: Grid
  timers :: "timer list"
  nextTimer :: nat
  gridApi :: "GridApi option"
  rowData :: "RowData list"
  telemetryEvents :: addr
  stats :: Stats
  scrollTimeoutRef :: "nat option"

definition setTimeout :: "callback \<Rightarrow> nat \<Rightarrow> app \<Rightarrow> nat \<times> app" where
  "setTimeout cb delay s =
     (nextTimer s,
      s\<lparr>timers := timers s @ [(nextTimer s, clock s + delay, cb)], nextTimer := nextTimer s + 1\<rparr>)"

definition clearTimeout :: "nat \<Rightarrow> app \<Rightarrow> app" where
  "clearTimeout h s = s\<lparr>timers := filter (\<lambda>tm. fst tm \<noteq> h) (timers s)\<rparr>"

definition sendTelemetryEvent :: "string \<Rightarrow> payload \<Rightarrow> app \<Rightarrow> TelemetryEvent \<times> app" where
  "sendTelemetryEvent eventType' data' s =
     (let (event, s1) = send (telemetry s) eventType' data' s;
          (a, s2) = alloc (deref s1 (events (telemetry s1))) s1;
          s3 = s2\<lparr>telemetryEvents := a\<rparr>;
          s4 = s3\<lparr>stats := (stats s3)\<lparr>totalEvents := length (deref s3 (events (telemetry s3)))\<rparr>\<rparr>
      in (event, s4))"

definition colFields :: "string list" where
  "colFields = [''id'', ''product'', ''category'', ''price'', ''quantity'', ''inStock'', ''lastUpdated'']"

definition onGridReady :: "app \<Rightarrow> app" where
  "onGridReady s =
     (let s1 = s\<lparr>gridApi := Some GridApi\<rparr>
      in snd (sendTelemetryEvent ''grid_initialized''
                (Grid_initialized \<lparr>totalRows_init = length (rowData s1), columns = colFields,
                                   gridVersion = ''ag-grid-community''\<rparr>) s1))"

text \<open>The loop \<open>for (let i = firstRow; i <= lastRow; i++)\<close> of \<open>extractVisibleRowsData\<close>.\<close>

function visibleRows_loop :: "Grid \<Rightarrow> int \<Rightarrow> int \<Rightarrow> RowData list \<Rightarrow> RowData list" where
  "visibleRows_loop g i lastRow' acc =
     (if i \<le> lastRow'
      then visibleRows_loop g (i + 1) lastRow'
             (case getDisplayedRowAtIndex g i of
                None \<Rightarrow> acc
              | Some rowNode \<Rightarrow> (case data_node rowNode of None \<Rightarrow> acc | Some d \<Rightarrow> acc @ [d]))
      else acc)"
  by pat_completeness auto
termination
  by (relation "measure (\<lambda>(g, i, l, acc). nat (l + 1 - i))") auto

declare visibleRows_loop.simps [simp del]

text \<open>\<open>rows.reduce((sum, r) => sum + r.price * r.quantity, 0)\<close>\<close>

definition reduce_value :: "RowData list \<Rightarrow> jsnum" where
  "reduce_value rows = foldl (\<lambda>sum r. jadd sum (jmul (price r) (quantity r))) (Num 0) rows"

text \<open>\<open>rows.reduce((sum, r) => sum + r.price, 0)\<close>\<close>

definition reduce_price :: "RowData list \<Rightarrow> jsnum" where
  "reduce_price rows = foldl (\<lambda>sum r. jadd sum (price r)) (Num 0) rows"

definition extractVisibleRowsData :: "app \<Rightarrow> app" where
  "extractVisibleRowsData s =
     (case gridApi s of
        None \<Rightarrow> s
      | Some api \<Rightarrow>
          (let firstRow' = getFirstDisplayedRowIndex (grid s);
               lastRow' = getLastDisplayedRowIndex (grid s);
               rows = visibleRows_loop (grid s) firstRow' lastRow' [];
               s1 = s\<lparr>stats := (stats s)\<lparr>visibleRows_stat := length rows\<rparr>\<rparr>
           in snd (sendTelemetryEvent ''visible_rows_extracted''
                     (Visible_rows_extracted
                        \<lparr>viewport = \<lparr>firstRowIndex = firstRow', lastRowIndex = lastRow',
                                     visibleRowCount = length rows\<rparr>,
                         visibleRows = rows,
                         visibleProductIds = map id_row rows,
                         totalValue = reduce_value rows\<rparr>) s1)))"

definition extractSelectedRowsData :: "app \<Rightarrow> app" where
  "extractSelectedRowsData s =
     (case gridApi s of
        None \<Rightarrow> s
      | Some api \<Rightarrow>
          (let rows = getSelectedRows (grid s);
               s1 = s\<lparr>stats := (stats s)\<lparr>selectedRows_stat := length rows\<rparr>\<rparr>
           in snd (sendTelemetryEvent ''selected_rows_extracted''
                     (Selected_rows_extracted
                        \<lparr>selectedCount = length rows,
                         selectedRows = rows,
                         selectedIds = map id_row rows,
                         totalSelectedValue = reduce_value rows\<rparr>) s1)))"

text \<open>The callback of \<open>forEachNode\<close>: push the node's data when it has some.\<close>

definition allData_of :: "RowNode list \<Rightarrow> RowData list" where
  "allData_of nodes =
     foldl (\<lambda>acc n. case data_node n of None \<Rightarrow> acc | Some d \<Rightarrow> acc @ [d]) [] nodes"

definition extractAllGridData :: "app \<Rightarrow> app" where
  "extractAllGridData s =
     (case gridApi s of
        None \<Rightarrow> s
      | Some api \<Rightarrow>
          (let rows = allData_of (forEachNode (grid s));
               columnState' = getColumnState (grid s);
               filterModel = getFilterModel (grid s)
           in snd (sendTelemetryEvent ''full_grid_state_extracted''
                     (Full_grid_state_extracted
                        \<lparr>gridMetadata =
                           \<lparr>totalRows = length rows,
                            displayedRows = getDisplayedRowCount (grid s),
                            selectedRows_meta = length (getSelectedRows (grid s))\<rparr>,
                         allData = rows,
                         columnState =
                           map (\<lambda>col. \<lparr>colId = colId col, width = width col, hide = hide col,
                                        sort_col = sort_col col, sortIndex = sortIndex col,
                                        pinned = pinned col\<rparr>) columnState',
                         activeFilters = filterModel,
                         viewport_full =
                           \<lparr>firstRow_full = getFirstDisplayedRowIndex (grid s),
                            lastRow_full = getLastDisplayedRowIndex (grid s)\<rparr>,
                         aggregations =
                           \<lparr>totalInventoryValue = reduce_value rows,
                            avgPrice = jdiv (reduce_price rows) (Num (of_nat (length rows))),
                            inStockCount = length (filter inStock rows),
                            outOfStockCount = length (filter (\<lambda>r. \<not> inStock r) rows)\<rparr>\<rparr>) s)))"

definition onRowSelected :: "RowSelectedEvent \<Rightarrow> app \<Rightarrow> app" where
  "onRowSelected event s =
     (let s1 = (case data_ev event of
                  None \<Rightarrow> s
                | Some d \<Rightarrow>
                    if isSelected (node event)
                    then snd (sendTelemetryEvent ''row_selected''
                                (Row_selected \<lparr>rowId = id_row d, rowData_sel = d,
                                               selectionSource = ''user_click''\<rparr>) s)
                    else s)
      in case gridApi s1 of
           None \<Rightarrow> s1
         | Some api \<Rightarrow>
             s1\<lparr>stats := (stats s1)\<lparr>selectedRows_stat := length (getSelectedRows (grid s1))\<rparr>\<rparr>)"

text \<open>
  \<open>onBodyScroll\<close>. A timer handle is a number, and \<open>if (scrollTimeoutRef.current)\<close>
  tests it for truth: \<open>null\<close> and \<open>0\<close> are false.
\<close>

definition onBodyScroll :: "BodyScrollEvent \<Rightarrow> app \<Rightarrow> app" where
  "onBodyScroll event s =
     (case gridApi s of
        None \<Rightarrow> s
      | Some api \<Rightarrow>
          (let s1 = (case scrollTimeoutRef s of
                       None \<Rightarrow> s
                     | Some h \<Rightarrow> if h \<noteq> 0 then clearTimeout h s else s);
               (h', s2) = setTimeout (ScrollTimeout event) 300 s1
           in s2\<lparr>scrollTimeoutRef := Some h'\<rparr>))"

text \<open>The body of the timeout's callback; \<open>gridApi\<close> was not \<open>null\<close> when it was created.\<close>

fun runCallback :: "callback \<Rightarrow> app \<Rightarrow> app" where
  "runCallback (ScrollTimeout event) s =
     (let firstRow' = getFirstDisplayedRowIndex (grid s);
          lastRow' = getLastDisplayedRowIndex (grid s)
      in snd (sendTelemetryEvent ''grid_scrolled''
                (Grid_scrolled
                   \<lparr>scrollDirection = direction event,
                    viewport_scroll =
                      \<lparr>firstRow = firstRow', lastRow = lastRow',
                       visibleRowCount_scroll = lastRow' - firstRow' + 1\<rparr>,
                    scrollPosition = \<lparr>top_pos = top_ev event, left_pos = left_ev event\<rparr>\<rparr>) s))"

definition clearTelemetry :: "app \<Rightarrow> app" where
  "clearTelemetry s =
     (let s1 = clear (telemetry s) s;
          (a, s2) = alloc [] s1
      in s2\<lparr>telemetryEvents := a,
            stats := \<lparr>totalEvents = 0, visibleRows_stat = 0, selectedRows_stat = 0\<rparr>\<rparr>)"

section \<open>The event loop\<close>

text \<open>
  Everything runs on one thread: a handler or a timeout callback runs to its end before
  the next one starts. When \<open>d\<close> milliseconds pass, the timeouts that fall due in them
  fire in the order of their due times, each at its due time (the earliest moment the
  browser may run it) and each removed from the pending ones before its callback runs.
  No callback of this program arms a timeout, so those due are known beforehand.
\<close>

fun fire_all :: "timer list \<Rightarrow> app \<Rightarrow> app" where
  "fire_all [] s = s"
| "fire_all (tm # tms) s =
     fire_all tms
       (runCallback (snd (snd tm))
          (s\<lparr>clock := max (clock s) (fst (snd tm)),
             timers := filter (\<lambda>x. fst x \<noteq> fst tm) (timers s)\<rparr>))"

definition elapse :: "nat \<Rightarrow> app \<Rightarrow> app" where
  "elapse d s =
     (let due = sort_key (\<lambda>tm. fst (snd tm)) (filter (\<lambda>tm. fst (snd tm) \<le> clock s + d) (timers s));
          s1 = fire_all due s
      in s1\<lparr>clock := clock s + d\<rparr>)"

text \<open>
  \<open>App\<close> registers no effect, hence no cleanup: when React unmounts it, none of its code
  runs. Its state variables and its ref are dropped; the timeouts it armed stay with the
  browser, and the module-level service stays too.
\<close>

definition unmount :: "app \<Rightarrow> app" where
  "unmount s = s\<lparr>gridApi := None, scrollTimeoutRef := None\<rparr>"

text \<open>What can happen to the mounted component, one thing at a time.\<close>

datatype input =
    GridReady
  | ExtractVisible
  | ExtractSelected
  | ExtractAll
  | RowSelectedEv RowSelectedEvent
  | BodyScroll BodyScrollEvent
  | ClearTelemetry
  | GridChange Grid
  | Elapse nat
  | Unmount

fun step :: "input \<Rightarrow> app \<Rightarrow> app" where
  "step GridReady s = onGridReady s"
| "step ExtractVisible s = extractVisibleRowsData s"
| "step ExtractSelected s = extractSelectedRowsData s"
| "step ExtractAll s = extractAllGridData s"
| "step (RowSelectedEv e) s = onRowSelected e s"
| "step (BodyScroll e) s = onBodyScroll e s"
| "step ClearTelemetry s = clearTelemetry s"
| "step (GridChange g) s = s\<lparr>grid := g\<rparr>"
| "step (Elapse d) s = elapse d s"
| "step Unmount s = unmount s"

definition run :: "input list \<Rightarrow> app \<Rightarrow> app" where
  "run ins s = foldl (\<lambda>s i. step i s) s ins"

text \<open>
  The state when the module has been loaded and \<open>App\<close> rendered for the first time over
  a grid \<open>g\<close> and the rows \<open>rows\<close>: the service's array and the array of
  \<open>useState([])\<close> are two empty arrays, timer handles start at 1.
\<close>

definition initialApp :: "Grid \<Rightarrow> RowData list \<Rightarrow> app" where
  "initialApp g rows =
     \<lparr>heap = [[], []], console = [], clock = 0, uuid = 0,
      telemetry = \<lparr>events = 0\<rparr>, grid = g, timers = [], nextTimer = 1,
      gridApi = None, rowData = rows, telemetryEvents = 1,
      stats = \<lparr>totalEvents = 0, visibleRows_stat = 0, selectedRows_stat = 0\<rparr>,
      scrollTimeoutRef = None\<rparr>"

section \<open>Notions the properties are stated with\<close>

text \<open>The row data the grid has at a displayed index, if any (\<open>rowNode?.data\<close>).\<close>

definition row_at :: "Grid \<Rightarrow> int \<Rightarrow> RowData option" where
  "row_at g i = (case getDisplayedRowAtIndex g i of None \<Rightarrow> None | Some n \<Rightarrow> data_node n)"

text \<open>
  The exact sums, for rows whose numbers are finite: of price times quantity, and of the
  prices.
\<close>

definition num_of :: "jsnum \<Rightarrow> rat" where
  "num_of x = (case x of Num a \<Rightarrow> a | _ \<Rightarrow> 0)"

definition exact_sum :: "RowData list \<Rightarrow> rat" where
  "exact_sum rows = sum_list (map (\<lambda>r. num_of (price r) * num_of (quantity r)) rows)"


text \<open>
  Where the code's arithmetic is exact: the prices and quantities are non-negative safe
  integers and the exact sum is at most \<open>2^53\<close>, so every product and every partial sum
  is a safe integer.
\<close>

definition nonneg_int :: "jsnum \<Rightarrow> bool" where
  "nonneg_int x = (case x of Num a \<Rightarrow> safe a \<and> 0 \<le> a | _ \<Rightarrow> False)"

definition exact_rows :: "RowData list \<Rightarrow> bool" where
  "exact_rows rows \<longleftrightarrow>
     list_all (\<lambda>r. nonneg_int (price r) \<and> nonneg_int (quantity r)) rows
     \<and> exact_sum rows \<le> 9007199254740992"


text \<open>The event that \<open>send\<close> builds in state \<open>s\<close>.\<close>

definition event_in :: "app \<Rightarrow> string \<Rightarrow> payload \<Rightarrow> TelemetryEvent" where
  "event_in s t d = \<lparr>id_event = uuid s, eventType = t, timestamp = clock s, data = d\<rparr>"

text \<open>The buffer: the contents of the service's array.\<close>

definition buffer :: "app \<Rightarrow> TelemetryEvent list" where
  "buffer s = deref s (events (telemetry s))"

text \<open>
  The scroll tracker is in order when the grid API is there, the browser hands out
  non-zero timer handles, and every pending timeout is the one the ref holds.
\<close>

definition tracker_ok :: "app \<Rightarrow> bool" where
  "tracker_ok s \<longleftrightarrow>
     gridApi s \<noteq> None \<and> 0 < nextTimer s \<and>
     (\<forall>tm \<in> set (timers s). scrollTimeoutRef s = Some (fst tm) \<and> fst tm \<noteq> 0)"

text \<open>
  A burst of scroll events: after each event the grid repaints (it changes to some
  state) and some milliseconds pass before the next event.
\<close>

fun burst :: "(BodyScrollEvent \<times> Grid \<times> nat) list \<Rightarrow> input list" where
  "burst [] = []"
| "burst ((e, g, d) # r) = BodyScroll e # GridChange g # Elapse d # burst r"

definition gaps :: "(BodyScrollEvent \<times> Grid \<times> nat) list \<Rightarrow> nat" where
  "gaps b = sum_list (map (\<lambda>x. snd (snd x)) b)"

section \<open>Sample data\<close>

definition generateSampleData :: "RowData list" where
  "generateSampleData =
    [\<lparr>id_row = 1, product = ''MacBook Pro 16\"'', category = ''Electronics'', price = Num 2499,
      quantity = Num 12, inStock = True, lastUpdated = ''2024-01-15''\<rparr>,
     \<lparr>id_row = 2, product = ''Logitech MX Master 3'', category = ''Electronics'', price = Num 99,
      quantity = Num 45, inStock = True, lastUpdated = ''2024-01-14''\<rparr>,
     \<lparr>id_row = 3, product = ''Mechanical Keyboard'', category = ''Electronics'', price = Num 149,
      quantity = Num 28, inStock = True, lastUpdated = ''2024-01-13''\<rparr>,
     \<lparr>id_row = 4, product = ''Dell UltraSharp 27\"'', category = ''Electronics'', price = Num 549,
      quantity = Num 8, inStock = True, lastUpdated = ''2024-01-12''\<rparr>,
     \<lparr>id_row = 5, product = ''Herman Miller Aeron'', category = ''Furniture'', price = Num 1395,
      quantity = Num 5, inStock = False, lastUpdated = ''2024-01-11''\<rparr>,
     \<lparr>id_row = 6, product = ''Standing Desk Pro'', category = ''Furniture'', price = Num 799,
      quantity = Num 15, inStock = True, lastUpdated = ''2024-01-10''\<rparr>,
     \<lparr>id_row = 7, product = ''Moleskine Notebook'', category = ''Stationery'', price = Num 25,
      quantity = Num 120, inStock = True, lastUpdated = ''2024-01-09''\<rparr>,
     \<lparr>id_row = 8, product = ''Premium Pen Set'', category = ''Stationery'', price = Num 45,
      quantity = Num 67, inStock = True, lastUpdated = ''2024-01-08''\<rparr>,
     \<lparr>id_row = 9, product = ''USB-C Hub 7-in-1'', category = ''Electronics'', price = Num 79,
      quantity = Num 89, inStock = True, lastUpdated = ''2024-01-07''\<rparr>,
     \<lparr>id_row = 10, product = ''Logitech C920 Webcam'', category = ''Electronics'', price = Num 69,
      quantity = Num 34, inStock = False, lastUpdated = ''2024-01-06''\<rparr>,
     \<lparr>id_row = 11, product = ''AirPods Pro 2'', category = ''Electronics'', price = Num 249,
      quantity = Num 56, inStock = True, lastUpdated = ''2024-01-05''\<rparr>,
     \<lparr>id_row = 12, product = ''iPad Pro 12.9\"'', category = ''Electronics'', price = Num 1099,
      quantity = Num 19, inStock = True, lastUpdated = ''2024-01-04''\<rparr>,
     \<lparr>id_row = 13, product = ''Desk Lamp LED'', category = ''Furniture'', price = Num 89,
      quantity = Num 42, inStock = True, lastUpdated = ''2024-01-03''\<rparr>,
     \<lparr>id_row = 14, product = ''Filing Cabinet'', category = ''Furniture'', price = Num 199,
      quantity = Num 11, inStock = False, lastUpdated = ''2024-01-02''\<rparr>,
     \<lparr>id_row = 15, product = ''Whiteboard 48x36'', category = ''Office'', price = Num 129,
      quantity = Num 7, inStock = True, lastUpdated = ''2024-01-01''\<rparr>]"

text \<open>
  Grids to try the component on: one node per row, in the order of the list, with a given
  displayed range and a given selection; no column state and no filter.
\<close>

definition grid_over :: "RowData list \<Rightarrow> int \<Rightarrow> int \<Rightarrow> RowData list \<Rightarrow> Grid" where
  "grid_over rows first' last' sel =
     \<lparr>getFirstDisplayedRowIndex = first',
      getLastDisplayedRowIndex = last',
      getDisplayedRowAtIndex =
        (\<lambda>i. if 0 \<le> i \<and> i < int (length rows)
             then Some \<lparr>data_node = Some (rows ! nat i),
                        isSelected = (id_row (rows ! nat i) \<in> set (map id_row sel))\<rparr>
             else None),
      forEachNode =
        map (\<lambda>r. \<lparr>data_node = Some r, isSelected = (id_row r \<in> set (map id_row sel))\<rparr>) rows,
      getSelectedRows = sel,
      getColumnState = [],
      getFilterModel = [],
      getDisplayedRowCount = int (length rows)\<rparr>"

definition row_A :: RowData where
  "row_A = \<lparr>id_row = 1, product = ''MacBook Pro 16\"'', category = ''Electronics'', price = Num 2499,
            quantity = Num 12, inStock = True, lastUpdated = ''2024-01-15''\<rparr>"

definition row_B :: RowData where
  "row_B = \<lparr>id_row = 2, product = ''Logitech MX Master 3'', category = ''Electronics'', price = Num 99,
            quantity = Num 45, inStock = True, lastUpdated = ''2024-01-14''\<rparr>"

definition two_rows :: "RowData list \<Rightarrow> Grid" where
  "two_rows sel = grid_over [row_A, row_B] 0 1 sel"

definition empty_grid :: Grid where
  "empty_grid = grid_over [] (-1) (-1) []"

definition scroll_down :: BodyScrollEvent where
  "scroll_down = \<lparr>direction = ''vertical'', top_ev = 480, left_ev = 0\<rparr>"

definition selected_ev :: "RowData \<Rightarrow> RowSelectedEvent" where
  "selected_ev r = \<lparr>node = \<lparr>data_node = Some r, isSelected = True\<rparr>, data_ev = Some r\<rparr>"

definition deselected_ev :: "RowData \<Rightarrow> RowSelectedEvent" where
  "deselected_ev r = \<lparr>node = \<lparr>data_node = Some r, isSelected = False\<rparr>, data_ev = Some r\<rparr>"

text \<open>A grid that is ready, over the sample data, rows 3 to 7 displayed.\<close>

definition ready_sample :: app where
  "ready_sample = run [GridReady] (initialApp (grid_over generateSampleData 3 7 []) generateSampleData)"


text \<open>A grid that is ready and empty.\<close>

definition ready_empty :: app where
  "ready_empty = run [GridReady] (initialApp empty_grid [])"

text \<open>
  Row B is selected in a ready grid over rows A and B, and then the log is cleared:
  the grid still has one selected row.
\<close>

definition after_clear :: app where
  "after_clear =
     run [GridReady, GridChange (two_rows [row_B]), RowSelectedEv (selected_ev row_B), ClearTelemetry]
       (initialApp (two_rows []) [row_A, row_B])"

text \<open>From there, row A is selected and then deselected.\<close>

definition select_deselect_A :: "input list" where
  "select_deselect_A =
     [GridChange (two_rows [row_B, row_A]), RowSelectedEv (selected_ev row_A),
      GridChange (two_rows [row_B]), RowSelectedEv (deselected_ev row_A)]"

text \<open>A ready grid that reports a first index above the last one, and one with a selection.\<close>

definition ready_reversed :: app where
  "ready_reversed = run [GridReady] (initialApp (grid_over generateSampleData 5 4 []) generateSampleData)"

definition ready_selected :: app where
  "ready_selected =
     run [GridReady] (initialApp (grid_over generateSampleData 0 9 [row_B, row_A]) generateSampleData)"


definition ready_two :: app where
  "ready_two = run [GridReady] (initialApp (two_rows []) [row_A, row_B])"

section \<open>Later calls\<close>

text \<open>
  What may happen after a moment of interest: an input to the component, or a direct call
  of \<open>telemetry.send\<close> or \<open>telemetry.clear\<close> by any other code of the module.
\<close>

datatype action = Input input | Send string payload | Clear

fun act :: "action \<Rightarrow> app \<Rightarrow> app" where
  "act (Input i) s = step i s"
| "act (Send t d) s = snd (send (telemetry s) t d s)"
| "act Clear s = clear (telemetry s) s"

definition acts :: "action list \<Rightarrow> app \<Rightarrow> app" where
  "acts as s = foldl (\<lambda>s a. act a s) s as"

text \<open>
  From \<open>s\<close> to \<open>s'\<close> the service is the same one, no array has gone, and every array
  but the service's own has the contents it had.
\<close>

definition keeps_arrays :: "app \<Rightarrow> app \<Rightarrow> bool" where
  "keeps_arrays s s' \<longleftrightarrow>
     telemetry s' = telemetry s \<and> length (heap s) \<le> length (heap s') \<and>
     (\<forall>a < length (heap s). a \<noteq> events (telemetry s) \<longrightarrow> heap s' ! a = heap s ! a)"

text \<open>Row A is selected in the ready two-row grid; then more happens.\<close>

definition payload_A :: payload where
  "payload_A = Row_selected \<lparr>rowId = 1, rowData_sel = row_A, selectionSource = ''user_click''\<rparr>"

definition after_send :: app where
  "after_send =
     run [GridReady, GridChange (two_rows [row_A]), RowSelectedEv (selected_ev row_A)]
       (initialApp (two_rows []) [row_A, row_B])"

definition later_actions :: "action list" where
  "later_actions = [Send ''row_selected'' payload_A, Input ExtractSelected, Clear, Input ClearTelemetry]"

text \<open>
  Three scroll events 50 ms apart in the ready two-row grid; 100 ms after the last one
  the grid shows rows 3 to 7 of the sample data, and 250 ms more pass.
\<close>

definition scroll_end :: BodyScrollEvent where
  "scroll_end = \<lparr>direction = ''vertical'', top_ev = 144, left_ev = 0\<rparr>"

definition sample_burst :: "(BodyScrollEvent \<times> Grid \<times> nat) list" where
  "sample_burst = [(scroll_down, two_rows [], 50), (scroll_down, two_rows [], 50)]"

definition sample_scrolling :: "input list" where
  "sample_scrolling =
     burst sample_burst @
     [BodyScroll scroll_end, Elapse 100, GridChange (grid_over generateSampleData 3 7 []), Elapse 250]"

text \<open>The component is unmounted 100 ms after a scroll event, and 200 ms more pass.\<close>

definition unmount_while_pending :: "input list" where
  "unmount_while_pending = [GridReady, BodyScroll scroll_down, Elapse 100, Unmount]"

text \<open>
  The array the user interface holds (\<open>telemetryEvents\<close>) is in order when it and the
  service's array both exist, are two different arrays, and have the same contents.
\<close>

definition snapshot_ok :: "app \<Rightarrow> bool" where
  "snapshot_ok s \<longleftrightarrow>
     events (telemetry s) < length (heap s) \<and> telemetryEvents s < length (heap s) \<and>
     telemetryEvents s \<noteq> events (telemetry s) \<and>
     deref s (telemetryEvents s) = buffer s"

section \<open>The buffer bound\<close>

lemma take_append_take: "take n (xs @ take n ys) = take n (xs @ ys)"
  by (simp add: min_def)

lemma butlast_over: "length b \<le> n \<Longrightarrow> (if n < length (e # b) then butlast (e # b) else e # b) = take n (e # b)"
  by (cases "length b = n") (auto simp: butlast_conv_take)

lemma deref_send:
  assumes "events svc < length (heap w)" and "length (deref w (events svc)) \<le> 50"
  shows "deref (snd (send svc t d w)) (events svc) = take 50 (fst (send svc t d w) # deref w (events svc))"
proof -
  let ?e = "\<lparr>id_event = uuid w, eventType = t, timestamp = clock w, data = d\<rparr>"
  let ?b = "deref w (events svc)"
  have "deref (snd (send svc t d w)) (events svc) = (if 50 < length (?e # ?b) then butlast (?e # ?b) else ?e # ?b)"
    using assms(1) by (simp add: send_def Let_def unshift_def pop_def deref_def)
  also have "\<dots> = take 50 (?e # ?b)"
    using assms(2) by (rule butlast_over)
  finally show ?thesis by (simp add: send_def Let_def)
qed

lemma heap_length_send: "length (heap (snd (send svc t d w))) = length (heap w)"
  by (simp add: send_def Let_def unshift_def pop_def)

lemma deref_sends:
  "events svc < length (heap w) \<Longrightarrow> length (deref w (events svc)) \<le> 50 \<Longrightarrow>
   deref (snd (sends svc cs w)) (events svc) = take 50 (rev (fst (sends svc cs w)) @ deref w (events svc))"
proof (induction cs arbitrary: w)
  case Nil
  then show ?case by simp
next
  case (Cons c cs)
  let ?w1 = "snd (send svc (fst c) (snd c) w)"
  let ?e = "fst (send svc (fst c) (snd c) w)"
  have b1: "deref ?w1 (events svc) = take 50 (?e # deref w (events svc))"
    using Cons.prems by (rule deref_send)
  have "deref (snd (sends svc cs ?w1)) (events svc)
          = take 50 (rev (fst (sends svc cs ?w1)) @ deref ?w1 (events svc))"
    using Cons.prems by (intro Cons.IH) (simp_all add: heap_length_send b1)
  also have "\<dots> = take 50 (rev (fst (sends svc cs ?w1)) @ ?e # deref w (events svc))"
    unfolding b1 by (rule take_append_take)
  finally show ?case
    by (simp add: case_prod_unfold Let_def)
qed

lemma sends_events:
  "map eventType (fst (sends svc cs w)) = map fst cs \<and> map data (fst (sends svc cs w)) = map snd cs"
  by (induction cs arbitrary: w) (simp_all add: case_prod_unfold Let_def send_def)

text \<open>
  C1. On a freshly created telemetry service, after any sequence of \<open>send\<close> calls the
  buffer holds the events those calls returned, newest first, cut to the 50 most recent:
  its length is the smaller of 50 and the number of calls, so it never exceeds 50, and
  once more than 50 events were sent it is exactly the last 50 of them in reverse order
  of sending. The returned events carry the event types and payloads of the calls.
\<close>

theorem send_buffer_bound:
  "(let (svc, w0) = createTelemetryService w;
        (es, w1) = sends svc calls w0
    in deref w1 (events svc) = take 50 (rev es)
       \<and> length (deref w1 (events svc)) = min 50 (length calls)
       \<and> length (deref w1 (events svc)) \<le> 50
       \<and> map eventType es = map fst calls \<and> map data es = map snd calls)"
proof -
  let ?svc = "\<lparr>events = length (heap w)\<rparr>"
  let ?w0 = "w\<lparr>heap := heap w @ [[]]\<rparr>"
  have c: "createTelemetryService w = (?svc, ?w0)"
    by (simp add: createTelemetryService_def alloc_def)
  have e: "deref ?w0 (events ?svc) = []"
    by (simp add: deref_def)
  have "deref (snd (sends ?svc calls ?w0)) (events ?svc)
             = take 50 (rev (fst (sends ?svc calls ?w0)) @ deref ?w0 (events ?svc))"
    by (rule deref_sends) (simp_all add: deref_def)
  then have b: "deref (snd (sends ?svc calls ?w0)) (events ?svc)
             = take 50 (rev (fst (sends ?svc calls ?w0)))"
    unfolding e by simp
  have l: "length (fst (sends ?svc calls ?w0)) = length calls"
    using sends_events [of ?svc calls ?w0] by (metis length_map)
  have n: "length (deref (snd (sends ?svc calls ?w0)) (events ?svc)) = min 50 (length calls)"
    unfolding b by (simp add: l min.commute)
  show ?thesis
    unfolding c using b n sends_events [of ?svc calls ?w0]
    by (simp add: case_prod_unfold)
qed

section \<open>Emitting an event\<close>

lemmas service_defs = sendTelemetryEvent_def send_def unshift_def pop_def alloc_def deref_def
  clear_def set_length_0_def

lemmas handler_defs = onGridReady_def extractVisibleRowsData_def extractSelectedRowsData_def
  extractAllGridData_def onRowSelected_def onBodyScroll_def clearTelemetry_def
  setTimeout_def clearTimeout_def elapse_def unmount_def run_def initialApp_def colFields_def

lemmas sample_defs = ready_sample_def ready_empty_def after_clear_def select_deselect_A_def
  grid_over_def two_rows_def empty_grid_def row_A_def row_B_def scroll_down_def
  selected_ev_def deselected_ev_def generateSampleData_def

lemma console_sendTelemetryEvent:
  "console (snd (sendTelemetryEvent t d s)) = console s @ [event_in s t d]"
  by (simp add: service_defs event_in_def Let_def case_prod_unfold)

lemma frame_sendTelemetryEvent:
  "gridApi (snd (sendTelemetryEvent t d s)) = gridApi s"
  "grid (snd (sendTelemetryEvent t d s)) = grid s"
  "timers (snd (sendTelemetryEvent t d s)) = timers s"
  "nextTimer (snd (sendTelemetryEvent t d s)) = nextTimer s"
  "scrollTimeoutRef (snd (sendTelemetryEvent t d s)) = scrollTimeoutRef s"
  "clock (snd (sendTelemetryEvent t d s)) = clock s"
  "uuid (snd (sendTelemetryEvent t d s)) = uuid s + 1"
  "telemetry (snd (sendTelemetryEvent t d s)) = telemetry s"
  "rowData (snd (sendTelemetryEvent t d s)) = rowData s"
  "selectedRows_stat (stats (snd (sendTelemetryEvent t d s))) = selectedRows_stat (stats s)"
  "visibleRows_stat (stats (snd (sendTelemetryEvent t d s))) = visibleRows_stat (stats s)"
  by (simp_all add: service_defs Let_def case_prod_unfold)

lemma event_in_stats [simp]: "event_in (s\<lparr>stats := x\<rparr>) t d = event_in s t d"
  by (simp add: event_in_def)

section \<open>The extractors\<close>

lemma visibleRows_loop_eq:
  "visibleRows_loop g i l acc = acc @ List.map_filter (row_at g) [i..l]"
proof (induction g i l acc rule: visibleRows_loop.induct)
  case (1 g i l acc)
  show ?case
  proof (cases "i \<le> l")
    case True
    then have u: "[i..l] = i # [i + 1..l]"
      by (simp add: upto_rec1)
    let ?acc = "(case getDisplayedRowAtIndex g i of
                   None \<Rightarrow> acc
                 | Some rowNode \<Rightarrow> (case data_node rowNode of None \<Rightarrow> acc | Some d \<Rightarrow> acc @ [d]))"
    have "visibleRows_loop g i l acc = visibleRows_loop g (i + 1) l ?acc"
      using True by (subst visibleRows_loop.simps) simp
    also have "\<dots> = ?acc @ List.map_filter (row_at g) [i + 1..l]"
      using True by (rule 1)
    also have "\<dots> = acc @ List.map_filter (row_at g) [i..l]"
      unfolding u by (simp add: List.map_filter_simps row_at_def split: option.splits)
    finally show ?thesis .
  next
    case False
    then show ?thesis
      by (subst visibleRows_loop.simps) (simp add: List.map_filter_simps)
  qed
qed

lemma map_filter_all_Some:
  "(\<forall>x \<in> set xs. f x \<noteq> None) \<Longrightarrow> List.map_filter f xs = map (\<lambda>x. the (f x)) xs"
  by (induction xs) (auto simp: List.map_filter_simps)

lemma map_filter_all_None:
  "(\<forall>x \<in> set xs. f x = None) \<Longrightarrow> List.map_filter f xs = []"
  by (induction xs) (auto simp: List.map_filter_simps)

lemma console_extractVisibleRowsData:
  assumes "gridApi s = Some api"
  shows "console (extractVisibleRowsData s) =
           console s @
           [event_in s ''visible_rows_extracted''
              (let rows = List.map_filter (row_at (grid s))
                            [getFirstDisplayedRowIndex (grid s)..getLastDisplayedRowIndex (grid s)]
               in Visible_rows_extracted
                 \<lparr>viewport = \<lparr>firstRowIndex = getFirstDisplayedRowIndex (grid s),
                              lastRowIndex = getLastDisplayedRowIndex (grid s),
                              visibleRowCount = length rows\<rparr>,
                  visibleRows = rows,
                  visibleProductIds = map id_row rows,
                  totalValue = reduce_value rows\<rparr>)]"
  using assms
  by (simp add: extractVisibleRowsData_def Let_def console_sendTelemetryEvent visibleRows_loop_eq)

text \<open>
  C6. When the grid API is not there (\<open>gridApi\<close> is \<open>null\<close>), each of the four
  extractors returns at once: the whole state is left as it was, so no event is emitted,
  the buffer is unchanged and no timeout is armed.
\<close>

theorem extractors_skip_without_grid:
  assumes "gridApi s = None"
  shows "extractVisibleRowsData s = s \<and> extractSelectedRowsData s = s
         \<and> extractAllGridData s = s \<and> onBodyScroll e s = s"
  using assms
  by (simp add: extractVisibleRowsData_def extractSelectedRowsData_def extractAllGridData_def
      onBodyScroll_def)

theorem extractors_skip_without_grid_witness:
  "gridApi (initialApp empty_grid []) = None
   \<and> extractVisibleRowsData (initialApp empty_grid []) = initialApp empty_grid []
   \<and> extractSelectedRowsData (initialApp empty_grid []) = initialApp empty_grid []
   \<and> extractAllGridData (initialApp empty_grid []) = initialApp empty_grid []
   \<and> onBodyScroll scroll_down (initialApp empty_grid []) = initialApp empty_grid []"
proof -
  have h: "gridApi (initialApp empty_grid []) = None"
    by (simp add: initialApp_def)
  show ?thesis
    using h extractors_skip_without_grid [OF h, of scroll_down] by simp
qed

text \<open>
  C7. With the grid API there and a row with data at every index of the displayed range
  \<open>[first, last]\<close>, the viewport extractor emits one \<open>visible_rows_extracted\<close> event
  whose row list is the rows at the indices \<open>first, ..., last\<close> in that order, whose
  identifier list is their keys, and whose count is \<open>last - first + 1\<close> (5 for the
  range \<open>[3, 7]\<close>); when \<open>first > last\<close> the row list is empty and the total is 0.
\<close>

theorem viewport_rows_in_range:
  assumes "gridApi s = Some api"
    and "first' = getFirstDisplayedRowIndex (grid s)"
    and "last' = getLastDisplayedRowIndex (grid s)"
    and "\<forall>i \<in> {first'..last'}. row_at (grid s) i \<noteq> None"
    and "rows = map (\<lambda>i. the (row_at (grid s) i)) [first'..last']"
  shows "console (extractVisibleRowsData s) =
           console s @
           [event_in s ''visible_rows_extracted''
              (Visible_rows_extracted
                 \<lparr>viewport = \<lparr>firstRowIndex = first', lastRowIndex = last',
                              visibleRowCount = length rows\<rparr>,
                  visibleRows = rows,
                  visibleProductIds = map id_row rows,
                  totalValue = reduce_value rows\<rparr>)]
         \<and> length rows = nat (last' - first' + 1)
         \<and> (last' < first' \<longrightarrow> rows = [] \<and> reduce_value rows = Num 0)"
proof -
  have "List.map_filter (row_at (grid s)) [first'..last'] = rows"
    using assms(4,5) by (simp add: map_filter_all_Some)
  then have "console (extractVisibleRowsData s) =
           console s @
           [event_in s ''visible_rows_extracted''
              (Visible_rows_extracted
                 \<lparr>viewport = \<lparr>firstRowIndex = first', lastRowIndex = last',
                              visibleRowCount = length rows\<rparr>,
                  visibleRows = rows,
                  visibleProductIds = map id_row rows,
                  totalValue = reduce_value rows\<rparr>)]"
    using console_extractVisibleRowsData [OF assms(1)] assms(2,3) by (simp add: Let_def)
  moreover have "length rows = nat (last' - first' + 1)"
    using assms(5) by simp
  moreover have "last' < first' \<longrightarrow> rows = [] \<and> reduce_value rows = Num 0"
    using assms(5) by (simp add: reduce_value_def)
  ultimately show ?thesis by blast
qed

lemma ready_sample_gridApi: "gridApi ready_sample = Some GridApi"
  by (simp add: ready_sample_def run_def onGridReady_def frame_sendTelemetryEvent)

lemma ready_sample_grid: "grid ready_sample = grid_over generateSampleData 3 7 []"
  by (simp add: ready_sample_def run_def onGridReady_def frame_sendTelemetryEvent initialApp_def)

lemma ready_reversed_gridApi: "gridApi ready_reversed = Some GridApi"
  by (simp add: ready_reversed_def run_def onGridReady_def frame_sendTelemetryEvent)

lemma ready_reversed_grid: "grid ready_reversed = grid_over generateSampleData 5 4 []"
  by (simp add: ready_reversed_def run_def onGridReady_def frame_sendTelemetryEvent initialApp_def)

theorem viewport_rows_in_range_witness:
  "gridApi ready_sample = Some GridApi
   \<and> console (extractVisibleRowsData ready_sample) =
       console ready_sample @
         [event_in ready_sample ''visible_rows_extracted''
            (Visible_rows_extracted
               \<lparr>viewport = \<lparr>firstRowIndex = 3, lastRowIndex = 7, visibleRowCount = 5\<rparr>,
                visibleRows = take 5 (drop 3 generateSampleData),
                visibleProductIds = [4, 5, 6, 7, 8],
                totalValue = Num 29367\<rparr>)]
   \<and> gridApi ready_reversed = Some GridApi
   \<and> console (extractVisibleRowsData ready_reversed) =
       console ready_reversed @
         [event_in ready_reversed ''visible_rows_extracted''
            (Visible_rows_extracted
               \<lparr>viewport = \<lparr>firstRowIndex = 5, lastRowIndex = 4, visibleRowCount = 0\<rparr>,
                visibleRows = [], visibleProductIds = [], totalValue = Num 0\<rparr>)]"
proof -
  let ?rows = "take 5 (drop 3 generateSampleData)"
  have f: "3 = getFirstDisplayedRowIndex (grid ready_sample)"
    and l: "7 = getLastDisplayedRowIndex (grid ready_sample)"
    by (simp_all add: ready_sample_grid grid_over_def)
  have h: "\<forall>i \<in> {3..7}. row_at (grid ready_sample) i \<noteq> None"
    by (simp add: ready_sample_grid row_at_def grid_over_def generateSampleData_def)
  have r: "?rows = map (\<lambda>i. the (row_at (grid ready_sample) i)) [3..7]"
    by (simp add: ready_sample_grid row_at_def grid_over_def generateSampleData_def)
  have v: "reduce_value ?rows = Num 29367"
    by (simp add: reduce_value_def generateSampleData_def safe_def)
  have n: "length ?rows = 5" and i: "map id_row ?rows = [4, 5, 6, 7, 8]"
    by (simp_all add: generateSampleData_def)
  have f': "5 = getFirstDisplayedRowIndex (grid ready_reversed)"
    and l': "4 = getLastDisplayedRowIndex (grid ready_reversed)"
    by (simp_all add: ready_reversed_grid grid_over_def)
  have h': "\<forall>i \<in> {5..4}. row_at (grid ready_reversed) i \<noteq> None"
    by simp
  have r': "[] = map (\<lambda>i. the (row_at (grid ready_reversed) i)) [5..4]"
    by simp
  have a: "console (extractVisibleRowsData ready_sample) =
       console ready_sample @
         [event_in ready_sample ''visible_rows_extracted''
            (Visible_rows_extracted
               \<lparr>viewport = \<lparr>firstRowIndex = 3, lastRowIndex = 7, visibleRowCount = 5\<rparr>,
                visibleRows = take 5 (drop 3 generateSampleData),
                visibleProductIds = [4, 5, 6, 7, 8],
                totalValue = Num 29367\<rparr>)]"
    using viewport_rows_in_range [OF ready_sample_gridApi f l h r]
    unfolding v n i by simp
  have b: "console (extractVisibleRowsData ready_reversed) =
       console ready_reversed @
         [event_in ready_reversed ''visible_rows_extracted''
            (Visible_rows_extracted
               \<lparr>viewport = \<lparr>firstRowIndex = 5, lastRowIndex = 4, visibleRowCount = 0\<rparr>,
                visibleRows = [], visibleProductIds = [], totalValue = Num 0\<rparr>)]"
    using viewport_rows_in_range [OF ready_reversed_gridApi f' l' h' r']
    by (simp add: reduce_value_def)
  show ?thesis
    using a b by (simp add: ready_sample_gridApi ready_reversed_gridApi)
qed

text \<open>
  C10. With the grid API there and no row data at any index of the displayed range
  (as when the grid reports \<open>first = last = -1\<close> for an empty viewport), the viewport
  extractor still emits one \<open>visible_rows_extracted\<close> event: its row list and its
  identifier list are empty, its total is 0, its count is 0 (the length of the collected
  list, not \<open>last - first + 1\<close>), and its two indices are those the grid reported.
\<close>

theorem viewport_without_rows:
  assumes "gridApi s = Some api"
    and "\<forall>i \<in> {getFirstDisplayedRowIndex (grid s)..getLastDisplayedRowIndex (grid s)}.
           row_at (grid s) i = None"
  shows "console (extractVisibleRowsData s) =
           console s @
           [event_in s ''visible_rows_extracted''
              (Visible_rows_extracted
                 \<lparr>viewport = \<lparr>firstRowIndex = getFirstDisplayedRowIndex (grid s),
                              lastRowIndex = getLastDisplayedRowIndex (grid s),
                              visibleRowCount = 0\<rparr>,
                  visibleRows = [],
                  visibleProductIds = [],
                  totalValue = Num 0\<rparr>)]"
proof -
  have "List.map_filter (row_at (grid s))
          [getFirstDisplayedRowIndex (grid s)..getLastDisplayedRowIndex (grid s)] = []"
    using assms(2) by (simp add: map_filter_all_None)
  then show ?thesis
    using console_extractVisibleRowsData [OF assms(1)] by (simp add: reduce_value_def)
qed

lemma ready_empty_gridApi: "gridApi ready_empty = Some GridApi"
  by (simp add: ready_empty_def run_def onGridReady_def frame_sendTelemetryEvent)

lemma ready_empty_grid: "grid ready_empty = empty_grid"
  by (simp add: ready_empty_def run_def onGridReady_def frame_sendTelemetryEvent initialApp_def)

theorem viewport_without_rows_witness:
  "gridApi ready_empty = Some GridApi
   \<and> getFirstDisplayedRowIndex (grid ready_empty) = -1
   \<and> getLastDisplayedRowIndex (grid ready_empty) = -1
   \<and> row_at (grid ready_empty) (-1) = None
   \<and> console (extractVisibleRowsData ready_empty) =
       console ready_empty @
         [event_in ready_empty ''visible_rows_extracted''
            (Visible_rows_extracted
               \<lparr>viewport = \<lparr>firstRowIndex = -1, lastRowIndex = -1, visibleRowCount = 0\<rparr>,
                visibleRows = [], visibleProductIds = [], totalValue = Num 0\<rparr>)]"
proof -
  have h: "\<forall>i \<in> {getFirstDisplayedRowIndex (grid ready_empty)..getLastDisplayedRowIndex (grid ready_empty)}.
             row_at (grid ready_empty) i = None"
    by (simp add: ready_empty_grid empty_grid_def grid_over_def row_at_def)
  show ?thesis
    using viewport_without_rows [OF ready_empty_gridApi h]
    by (simp add: ready_empty_gridApi ready_empty_grid empty_grid_def grid_over_def row_at_def)
qed

lemma safe_add:
  assumes "safe x" and "safe y" and "0 \<le> x" and "0 \<le> y" and "x + y \<le> 9007199254740992"
  shows "safe (x + y)"
proof -
  have "of_int \<lfloor>x + y\<rfloor> = x + y"
    using assms(1,2) by (metis safe_def floor_of_int of_int_add)
  then show ?thesis
    using assms(3-5) by (simp add: safe_def)
qed

lemma safe_mult:
  assumes "safe x" and "safe y" and "0 \<le> x" and "0 \<le> y" and "x * y \<le> 9007199254740992"
  shows "safe (x * y)"
proof -
  have "of_int \<lfloor>x * y\<rfloor> = x * y"
    using assms(1,2) by (metis safe_def floor_of_int of_int_mult)
  then show ?thesis
    using assms(3-5) by (simp add: safe_def)
qed

lemma exact_sum_nonneg:
  "list_all (\<lambda>r. nonneg_int (price r) \<and> nonneg_int (quantity r)) rows \<Longrightarrow> 0 \<le> exact_sum rows"
  by (induction rows) (auto simp: exact_sum_def nonneg_int_def num_of_def split: jsnum.splits)


lemma foldl_value_exact:
  assumes "list_all (\<lambda>r. nonneg_int (price r) \<and> nonneg_int (quantity r)) rows"
    and "safe a" and "0 \<le> a" and "a + exact_sum rows \<le> 9007199254740992"
  shows "foldl (\<lambda>sum r. jadd sum (jmul (price r) (quantity r))) (Num a) rows = Num (a + exact_sum rows)"
  using assms
proof (induction rows arbitrary: a)
  case Nil
  then show ?case by (simp add: exact_sum_def)
next
  case (Cons r rows)
  obtain p q where pq: "price r = Num p" "quantity r = Num q"
    and ip: "safe p" "0 \<le> p" and iq: "safe q" "0 \<le> q"
    using Cons.prems(1) by (auto simp: nonneg_int_def split: jsnum.splits)
  have rest: "list_all (\<lambda>r. nonneg_int (price r) \<and> nonneg_int (quantity r)) rows"
    using Cons.prems(1) by simp
  have e: "exact_sum (r # rows) = p * q + exact_sum rows"
    by (simp add: exact_sum_def num_of_def pq)
  have n: "0 \<le> exact_sum rows"
    using rest by (rule exact_sum_nonneg)
  have pq0: "0 \<le> p * q"
    using ip(2) iq(2) by simp
  have b: "a + p * q + exact_sum rows \<le> 9007199254740992"
    using Cons.prems(4) by (simp add: e add.assoc)
  have spq: "safe (p * q)"
    using ip(1) iq(1) ip(2) iq(2) b n Cons.prems(3) by (intro safe_mult) simp_all
  have sa: "safe (a + p * q)"
    using Cons.prems(2) spq Cons.prems(3) pq0 b n by (intro safe_add) simp_all
  have "foldl (\<lambda>sum r. jadd sum (jmul (price r) (quantity r))) (Num (a + p * q)) rows
          = Num (a + p * q + exact_sum rows)"
    using rest sa Cons.prems(3) pq0 b by (intro Cons.IH) simp_all
  then show ?case
    by (simp add: pq ip iq spq sa Cons.prems(2) e add.assoc)
qed

lemma reduce_value_exact: "exact_rows rows \<Longrightarrow> reduce_value rows = Num (exact_sum rows)"
  using foldl_value_exact [of rows 0] by (simp add: exact_rows_def reduce_value_def safe_def)





text \<open>
  C8. With the grid API there, the selection extractor emits one
  \<open>selected_rows_extracted\<close> event whose count is the number of selected rows, whose
  row list is the selection, whose identifier list is the keys of the selected rows and
  whose total is the code's own sum, \<open>reduce\<close> from 0 over the selection of price times
  quantity in double arithmetic. Where that arithmetic is exact the total is the exact
  sum of price times quantity. For an empty selection the count is 0, both lists are
  empty and the total is the number 0, not \<open>NaN\<close>.
\<close>

theorem selection_payload:
  assumes "gridApi s = Some api" and "sel = getSelectedRows (grid s)"
  shows "console (extractSelectedRowsData s) =
           console s @
           [event_in s ''selected_rows_extracted''
              (Selected_rows_extracted
                 \<lparr>selectedCount = length sel, selectedRows = sel,
                  selectedIds = map id_row sel,
                  totalSelectedValue = reduce_value sel\<rparr>)]
         \<and> (exact_rows sel \<longrightarrow> reduce_value sel = Num (exact_sum sel))
         \<and> (sel = [] \<longrightarrow> length sel = 0 \<and> map id_row sel = []
                           \<and> reduce_value sel = Num 0 \<and> reduce_value sel \<noteq> NaN)"
proof -
  have "console (extractSelectedRowsData s) =
           console s @
           [event_in s ''selected_rows_extracted''
              (Selected_rows_extracted
                 \<lparr>selectedCount = length sel, selectedRows = sel,
                  selectedIds = map id_row sel,
                  totalSelectedValue = reduce_value sel\<rparr>)]"
    using assms by (simp add: extractSelectedRowsData_def Let_def console_sendTelemetryEvent)
  moreover have "exact_rows sel \<longrightarrow> reduce_value sel = Num (exact_sum sel)"
    by (simp add: reduce_value_exact)
  moreover have "sel = [] \<longrightarrow> reduce_value sel = Num 0"
    by (simp add: reduce_value_def)
  ultimately show ?thesis by simp
qed

lemma ready_selected_gridApi: "gridApi ready_selected = Some GridApi"
  by (simp add: ready_selected_def run_def onGridReady_def frame_sendTelemetryEvent)

lemma ready_selected_grid: "grid ready_selected = grid_over generateSampleData 0 9 [row_B, row_A]"
  by (simp add: ready_selected_def run_def onGridReady_def frame_sendTelemetryEvent initialApp_def)

theorem selection_payload_witness:
  "gridApi ready_selected = Some GridApi
   \<and> getSelectedRows (grid ready_selected) = [row_B, row_A]
   \<and> exact_rows [row_B, row_A]
   \<and> console (extractSelectedRowsData ready_selected) =
       console ready_selected @
         [event_in ready_selected ''selected_rows_extracted''
            (Selected_rows_extracted
               \<lparr>selectedCount = 2, selectedRows = [row_B, row_A], selectedIds = [2, 1],
                totalSelectedValue = Num 34443\<rparr>)]
   \<and> getSelectedRows (grid ready_empty) = []
   \<and> console (extractSelectedRowsData ready_empty) =
       console ready_empty @
         [event_in ready_empty ''selected_rows_extracted''
            (Selected_rows_extracted
               \<lparr>selectedCount = 0, selectedRows = [], selectedIds = [],
                totalSelectedValue = Num 0\<rparr>)]"
proof -
  have s1: "[row_B, row_A] = getSelectedRows (grid ready_selected)"
    by (simp add: ready_selected_grid grid_over_def)
  have s2: "[] = getSelectedRows (grid ready_empty)"
    by (simp add: ready_empty_grid empty_grid_def grid_over_def)
  have x: "exact_sum [row_B, row_A] = 34443"
    by (simp add: exact_sum_def num_of_def row_A_def row_B_def)
  have a: "exact_rows [row_B, row_A]"
    unfolding exact_rows_def x
    by (simp add: nonneg_int_def safe_def row_A_def row_B_def)
  have i: "map id_row [row_B, row_A] = [2, 1]"
    by (simp add: row_A_def row_B_def)
  have e: "reduce_value [] = Num 0"
    by (simp add: reduce_value_def)
  show ?thesis
    using selection_payload [OF ready_selected_gridApi s1] selection_payload [OF ready_empty_gridApi s2]
      a x i e s1 [symmetric] s2 [symmetric]
    by (simp add: ready_selected_gridApi numeral_2_eq_2)
qed











section \<open>Row selection\<close>

lemma event_in_grid [simp]: "event_in (s\<lparr>grid := g\<rparr>) t d = event_in s t d"
  by (simp add: event_in_def)

lemma onRowSelected_selected:
  assumes "gridApi s = Some api" and "data_ev e = Some d" and "isSelected (node e)"
  shows "console (onRowSelected e s) =
           console s @
           [event_in s ''row_selected''
              (Row_selected \<lparr>rowId = id_row d, rowData_sel = d, selectionSource = ''user_click''\<rparr>)]"
    and "selectedRows_stat (stats (onRowSelected e s)) = length (getSelectedRows (grid s))"
    and "gridApi (onRowSelected e s) = Some api"
  using assms
  by (simp_all add: onRowSelected_def Let_def console_sendTelemetryEvent frame_sendTelemetryEvent)

lemma onRowSelected_deselected:
  assumes "gridApi s = Some api" and "\<not> isSelected (node e)"
  shows "console (onRowSelected e s) = console s"
    and "selectedRows_stat (stats (onRowSelected e s)) = length (getSelectedRows (grid s))"
  using assms
  by (simp_all add: onRowSelected_def Let_def split: option.splits)

text \<open>
  C9, as the code has it. With the grid API there, for a row with data: the change to
  selected emits exactly one \<open>row_selected\<close> event with the row's key, the row's data
  and the tag \<open>user_click\<close>; the change to deselected emits none; each of the two sets
  the selected-row statistic to the number of rows the grid has selected at that time.
  So after selecting and then deselecting a row, one event was emitted and the statistic
  is the number of rows the grid had selected before, provided the grid's selection is
  back to that size; it is the statistic's own earlier value when that value was up to
  date.
\<close>

theorem row_selection_events:
  assumes "gridApi s = Some api"
    and "data_ev sel = Some d" and "isSelected (node sel)"
    and "\<not> isSelected (node desel)"
    and "s1 = run [GridChange g1, RowSelectedEv sel] s"
    and "s2 = run [GridChange g2, RowSelectedEv desel] s1"
  shows "console s1 =
           console s @
           [event_in s ''row_selected''
              (Row_selected \<lparr>rowId = id_row d, rowData_sel = d, selectionSource = ''user_click''\<rparr>)]
         \<and> selectedRows_stat (stats s1) = length (getSelectedRows g1)
         \<and> console s2 = console s1
         \<and> selectedRows_stat (stats s2) = length (getSelectedRows g2)
         \<and> (length (getSelectedRows g2) = length (getSelectedRows (grid s)) \<longrightarrow>
              selectedRows_stat (stats s2) = length (getSelectedRows (grid s))
              \<and> (selectedRows_stat (stats s) = length (getSelectedRows (grid s)) \<longrightarrow>
                   selectedRows_stat (stats s2) = selectedRows_stat (stats s)))"
proof -
  have a: "gridApi (s\<lparr>grid := g1\<rparr>) = Some api"
    using assms(1) by simp
  have s1: "s1 = onRowSelected sel (s\<lparr>grid := g1\<rparr>)"
    using assms(5) by (simp add: run_def)
  have b: "gridApi (s1\<lparr>grid := g2\<rparr>) = Some api"
    using onRowSelected_selected(3) [OF a assms(2,3)] by (simp add: s1)
  have s2: "s2 = onRowSelected desel (s1\<lparr>grid := g2\<rparr>)"
    using assms(6) by (simp add: run_def)
  have "console s1 = console s @
           [event_in s ''row_selected''
              (Row_selected \<lparr>rowId = id_row d, rowData_sel = d, selectionSource = ''user_click''\<rparr>)]"
    using onRowSelected_selected(1) [OF a assms(2,3)] by (simp add: s1)
  moreover have "selectedRows_stat (stats s1) = length (getSelectedRows g1)"
    using onRowSelected_selected(2) [OF a assms(2,3)] by (simp add: s1)
  moreover have "console s2 = console s1"
    using onRowSelected_deselected(1) [OF b assms(4)] by (simp add: s2)
  moreover have "selectedRows_stat (stats s2) = length (getSelectedRows g2)"
    using onRowSelected_deselected(2) [OF b assms(4)] by (simp add: s2)
  ultimately show ?thesis by simp
qed

lemma ready_two_facts:
  "gridApi ready_two = Some GridApi"
  "grid ready_two = two_rows []"
  "selectedRows_stat (stats ready_two) = 0"
  by (simp_all add: ready_two_def run_def onGridReady_def frame_sendTelemetryEvent initialApp_def)

theorem row_selection_events_witness:
  "gridApi ready_two = Some GridApi
   \<and> selectedRows_stat (stats ready_two) = length (getSelectedRows (grid ready_two))
   \<and> console (run [GridChange (two_rows [row_A]), RowSelectedEv (selected_ev row_A),
                   GridChange (two_rows []), RowSelectedEv (deselected_ev row_A)] ready_two) =
       console ready_two @
         [event_in ready_two ''row_selected''
            (Row_selected \<lparr>rowId = 1, rowData_sel = row_A, selectionSource = ''user_click''\<rparr>)]
   \<and> selectedRows_stat
        (stats (run [GridChange (two_rows [row_A]), RowSelectedEv (selected_ev row_A)] ready_two)) = 1
   \<and> selectedRows_stat
        (stats (run [GridChange (two_rows [row_A]), RowSelectedEv (selected_ev row_A),
                     GridChange (two_rows []), RowSelectedEv (deselected_ev row_A)] ready_two)) =
       selectedRows_stat (stats ready_two)"
proof -
  let ?s1 = "run [GridChange (two_rows [row_A]), RowSelectedEv (selected_ev row_A)] ready_two"
  let ?s2 = "run [GridChange (two_rows []), RowSelectedEv (deselected_ev row_A)] ?s1"
  have r: "run [GridChange (two_rows [row_A]), RowSelectedEv (selected_ev row_A),
                GridChange (two_rows []), RowSelectedEv (deselected_ev row_A)] ready_two = ?s2"
    by (simp add: run_def)
  have h: "data_ev (selected_ev row_A) = Some row_A" "isSelected (node (selected_ev row_A))"
    "\<not> isSelected (node (deselected_ev row_A))"
    by (simp_all add: selected_ev_def deselected_ev_def)
  have g: "length (getSelectedRows (two_rows [])) = 0" "length (getSelectedRows (two_rows [row_A])) = 1"
    "id_row row_A = 1"
    by (simp_all add: two_rows_def grid_over_def row_A_def)
  show ?thesis
    unfolding r
    using row_selection_events [OF ready_two_facts(1) h refl refl, of "two_rows [row_A]" "two_rows []"]
    by (simp add: ready_two_facts g)
qed

text \<open>
  C9, as stated, fails: the statistic does not always come back to its earlier value.
  After the log was cleared while row B stayed selected, the statistic is 0; selecting
  and deselecting row A leaves it at 1.
\<close>

theorem row_selection_count_counterexample:
  "gridApi after_clear = Some GridApi
   \<and> selectedRows_stat (stats after_clear) = 0
   \<and> selectedRows_stat (stats (run select_deselect_A after_clear)) = 1
   \<and> selectedRows_stat (stats (run select_deselect_A after_clear))
       \<noteq> selectedRows_stat (stats after_clear)"
  by (simp add: sample_defs handler_defs service_defs Let_def)

section \<open>Snapshots of the buffer\<close>

lemma keeps_arrays_refl: "keeps_arrays s s"
  by (simp add: keeps_arrays_def)

lemma keeps_arrays_trans: "keeps_arrays s s' \<Longrightarrow> keeps_arrays s' s'' \<Longrightarrow> keeps_arrays s s''"
  by (auto simp: keeps_arrays_def)

lemma keeps_arrays_same_heap:
  "heap s' = heap s \<Longrightarrow> telemetry s' = telemetry s \<Longrightarrow> keeps_arrays s s'"
  by (simp add: keeps_arrays_def)

lemma keeps_arrays_send: "keeps_arrays s (snd (send (telemetry s) t d s))"
  by (simp add: keeps_arrays_def send_def Let_def unshift_def pop_def deref_def)

lemma keeps_arrays_clear: "keeps_arrays s (clear (telemetry s) s)"
  by (simp add: keeps_arrays_def clear_def set_length_0_def)

lemma keeps_arrays_sendTelemetryEvent: "keeps_arrays s (snd (sendTelemetryEvent t d s))"
  by (simp add: keeps_arrays_def service_defs Let_def case_prod_unfold nth_append)

lemma keeps_arrays_clearTelemetry: "keeps_arrays s (clearTelemetry s)"
  by (simp add: keeps_arrays_def clearTelemetry_def service_defs Let_def case_prod_unfold nth_append)

lemma keeps_arrays_runCallback: "keeps_arrays s (runCallback c s)"
  by (cases c) (simp add: Let_def keeps_arrays_sendTelemetryEvent)

lemma keeps_arrays_fire_all: "keeps_arrays s (fire_all tms s)"
proof (induction tms arbitrary: s)
  case Nil
  show ?case by (simp add: keeps_arrays_refl)
next
  case (Cons tm tms)
  let ?s0 = "s\<lparr>clock := max (clock s) (fst (snd tm)),
               timers := filter (\<lambda>x. fst x \<noteq> fst tm) (timers s)\<rparr>"
  have "keeps_arrays s ?s0"
    by (simp add: keeps_arrays_same_heap)
  moreover have "keeps_arrays ?s0 (runCallback (snd (snd tm)) ?s0)"
    by (rule keeps_arrays_runCallback)
  moreover have "keeps_arrays (runCallback (snd (snd tm)) ?s0) (fire_all tms (runCallback (snd (snd tm)) ?s0))"
    by (rule Cons.IH)
  ultimately have "keeps_arrays s (fire_all tms (runCallback (snd (snd tm)) ?s0))"
    by (blast intro: keeps_arrays_trans)
  then show ?case by simp
qed

lemma keeps_arrays_elapse: "keeps_arrays s (elapse d s)"
proof -
  let ?due = "sort_key (\<lambda>tm. fst (snd tm)) (filter (\<lambda>tm. fst (snd tm) \<le> clock s + d) (timers s))"
  have "keeps_arrays (fire_all ?due s) ((fire_all ?due s)\<lparr>clock := clock s + d\<rparr>)"
    by (simp add: keeps_arrays_same_heap)
  with keeps_arrays_fire_all [of s ?due]
  have "keeps_arrays s ((fire_all ?due s)\<lparr>clock := clock s + d\<rparr>)"
    by (rule keeps_arrays_trans)
  then show ?thesis by (simp add: elapse_def Let_def)
qed

lemma keeps_arrays_step: "keeps_arrays s (step i s)"
proof (cases i)
  case GridReady
  have "keeps_arrays s (s\<lparr>gridApi := Some GridApi\<rparr>)"
    by (simp add: keeps_arrays_same_heap)
  then have "keeps_arrays s (onGridReady s)"
    unfolding onGridReady_def Let_def
    by (rule keeps_arrays_trans) (rule keeps_arrays_sendTelemetryEvent)
  then show ?thesis using GridReady by simp
next
  case ExtractVisible
  have "keeps_arrays s (s\<lparr>stats := x\<rparr>)" for x
    by (simp add: keeps_arrays_same_heap)
  then have "keeps_arrays s (snd (sendTelemetryEvent t d (s\<lparr>stats := x\<rparr>)))" for x t d
    by (rule keeps_arrays_trans) (rule keeps_arrays_sendTelemetryEvent)
  then show ?thesis
    using ExtractVisible
    by (simp add: extractVisibleRowsData_def Let_def keeps_arrays_refl split: option.splits)
next
  case ExtractSelected
  have "keeps_arrays s (s\<lparr>stats := x\<rparr>)" for x
    by (simp add: keeps_arrays_same_heap)
  then have "keeps_arrays s (snd (sendTelemetryEvent t d (s\<lparr>stats := x\<rparr>)))" for x t d
    by (rule keeps_arrays_trans) (rule keeps_arrays_sendTelemetryEvent)
  then show ?thesis
    using ExtractSelected
    by (simp add: extractSelectedRowsData_def Let_def keeps_arrays_refl split: option.splits)
next
  case ExtractAll
  then show ?thesis
    by (simp add: extractAllGridData_def Let_def keeps_arrays_refl keeps_arrays_sendTelemetryEvent
        split: option.splits)
next
  case (RowSelectedEv e)
  let ?s1 = "(case data_ev e of
                  None \<Rightarrow> s
                | Some d \<Rightarrow>
                    if isSelected (node e)
                    then snd (sendTelemetryEvent ''row_selected''
                                (Row_selected \<lparr>rowId = id_row d, rowData_sel = d,
                                               selectionSource = ''user_click''\<rparr>) s)
                    else s)"
  have 1: "keeps_arrays s ?s1"
    by (simp add: keeps_arrays_refl keeps_arrays_sendTelemetryEvent split: option.splits)
  have 2: "keeps_arrays ?s1 (?s1\<lparr>stats := x\<rparr>)" for x
    by (simp add: keeps_arrays_same_heap)
  have "keeps_arrays s (onRowSelected e s)"
    unfolding onRowSelected_def Let_def
    using 1 2 by (cases "gridApi ?s1") (auto intro: keeps_arrays_trans)
  then show ?thesis using RowSelectedEv by simp
next
  case (BodyScroll e)
  then show ?thesis
    by (simp add: onBodyScroll_def Let_def setTimeout_def clearTimeout_def keeps_arrays_def
        split: option.splits)
next
  case ClearTelemetry
  then show ?thesis by (simp add: keeps_arrays_clearTelemetry)
next
  case (GridChange g)
  then show ?thesis by (simp add: keeps_arrays_same_heap)
next
  case (Elapse d)
  then show ?thesis by (simp add: keeps_arrays_elapse)
next
  case Unmount
  then show ?thesis by (simp add: unmount_def keeps_arrays_same_heap)
qed

lemma keeps_arrays_act: "keeps_arrays s (act a s)"
  by (cases a) (simp_all add: keeps_arrays_step keeps_arrays_send keeps_arrays_clear)

lemma keeps_arrays_acts: "keeps_arrays s (acts as s)"
proof (induction as arbitrary: s)
  case Nil
  show ?case by (simp add: acts_def keeps_arrays_refl)
next
  case (Cons a as)
  have "keeps_arrays (act a s) (acts as (act a s))"
    by (rule Cons.IH)
  with keeps_arrays_act [of s a] have "keeps_arrays s (acts as (act a s))"
    by (rule keeps_arrays_trans)
  then show ?case by (simp add: acts_def)
qed

lemma snapshot_sendTelemetryEvent:
  "telemetryEvents (snd (sendTelemetryEvent t d s)) = length (heap s)"
  "length (heap (snd (sendTelemetryEvent t d s))) = Suc (length (heap s))"
  by (simp_all add: service_defs Let_def case_prod_unfold)

lemma snapshot_contents:
  assumes "events (telemetry s) < length (heap s)"
  shows "deref (snd (sendTelemetryEvent t d s)) (length (heap s)) = buffer (snd (sendTelemetryEvent t d s))"
  using assms by (simp add: service_defs buffer_def Let_def case_prod_unfold nth_append)

lemma snapshot_ok_sendTelemetryEvent:
  assumes "events (telemetry s) < length (heap s)"
  shows "snapshot_ok (snd (sendTelemetryEvent t d s))"
  using assms snapshot_contents [OF assms, of t d]
  by (simp add: snapshot_ok_def snapshot_sendTelemetryEvent frame_sendTelemetryEvent)

lemma snapshot_ok_same:
  assumes "snapshot_ok s" and "heap s' = heap s" and "telemetry s' = telemetry s"
    and "telemetryEvents s' = telemetryEvents s"
  shows "snapshot_ok s'"
  using assms by (simp add: snapshot_ok_def deref_def buffer_def)

lemma snapshot_ok_service: "snapshot_ok s \<Longrightarrow> events (telemetry s) < length (heap s)"
  by (simp add: snapshot_ok_def)

lemma snapshot_ok_clearTelemetry:
  assumes "snapshot_ok s"
  shows "snapshot_ok (clearTelemetry s)"
  using assms
  by (simp add: snapshot_ok_def clearTelemetry_def service_defs buffer_def Let_def case_prod_unfold
      nth_append)

lemma snapshot_ok_runCallback:
  assumes "snapshot_ok s"
  shows "snapshot_ok (runCallback c s)"
  using assms
  by (cases c) (simp add: Let_def snapshot_ok_sendTelemetryEvent snapshot_ok_service)

lemma snapshot_ok_fire_all:
  assumes "snapshot_ok s"
  shows "snapshot_ok (fire_all tms s)"
  using assms
proof (induction tms arbitrary: s)
  case Nil
  then show ?case by simp
next
  case (Cons tm tms)
  let ?s0 = "s\<lparr>clock := max (clock s) (fst (snd tm)),
               timers := filter (\<lambda>x. fst x \<noteq> fst tm) (timers s)\<rparr>"
  have "snapshot_ok ?s0"
    using Cons.prems by (rule snapshot_ok_same) simp_all
  then have "snapshot_ok (runCallback (snd (snd tm)) ?s0)"
    by (rule snapshot_ok_runCallback)
  then have "snapshot_ok (fire_all tms (runCallback (snd (snd tm)) ?s0))"
    by (rule Cons.IH)
  then show ?case by simp
qed

lemma snapshot_ok_step:
  assumes "snapshot_ok s"
  shows "snapshot_ok (step i s)"
proof (cases i)
  case GridReady
  have "events (telemetry (s\<lparr>gridApi := Some GridApi\<rparr>)) < length (heap (s\<lparr>gridApi := Some GridApi\<rparr>))"
    using assms by (simp add: snapshot_ok_def)
  then show ?thesis
    using GridReady by (simp add: onGridReady_def Let_def snapshot_ok_sendTelemetryEvent)
next
  case ExtractVisible
  have "events (telemetry (s\<lparr>stats := x\<rparr>)) < length (heap (s\<lparr>stats := x\<rparr>))" for x
    using assms by (simp add: snapshot_ok_def)
  then show ?thesis
    using ExtractVisible assms
    by (simp add: extractVisibleRowsData_def Let_def snapshot_ok_sendTelemetryEvent split: option.splits)
next
  case ExtractSelected
  have "events (telemetry (s\<lparr>stats := x\<rparr>)) < length (heap (s\<lparr>stats := x\<rparr>))" for x
    using assms by (simp add: snapshot_ok_def)
  then show ?thesis
    using ExtractSelected assms
    by (simp add: extractSelectedRowsData_def Let_def snapshot_ok_sendTelemetryEvent split: option.splits)
next
  case ExtractAll
  then show ?thesis
    using assms
    by (simp add: extractAllGridData_def Let_def snapshot_ok_sendTelemetryEvent snapshot_ok_service
        split: option.splits)
next
  case (RowSelectedEv e)
  let ?s1 = "(case data_ev e of
                  None \<Rightarrow> s
                | Some d \<Rightarrow>
                    if isSelected (node e)
                    then snd (sendTelemetryEvent ''row_selected''
                                (Row_selected \<lparr>rowId = id_row d, rowData_sel = d,
                                               selectionSource = ''user_click''\<rparr>) s)
                    else s)"
  have 1: "snapshot_ok ?s1"
    using assms by (simp add: snapshot_ok_sendTelemetryEvent snapshot_ok_service split: option.splits)
  have 2: "snapshot_ok (?s1\<lparr>stats := x\<rparr>)" for x
    using 1 by (rule snapshot_ok_same) simp_all
  have "snapshot_ok (onRowSelected e s)"
    unfolding onRowSelected_def Let_def
    using 1 2 by (cases "gridApi ?s1") auto
  then show ?thesis using RowSelectedEv by simp
next
  case (BodyScroll e)
  have "snapshot_ok (onBodyScroll e s)"
    using assms
    by (rule snapshot_ok_same)
      (simp_all add: onBodyScroll_def Let_def setTimeout_def clearTimeout_def split: option.splits)
  then show ?thesis using BodyScroll by simp
next
  case ClearTelemetry
  then show ?thesis using assms by (simp add: snapshot_ok_clearTelemetry)
next
  case (GridChange g)
  have "snapshot_ok (s\<lparr>grid := g\<rparr>)"
    using assms by (rule snapshot_ok_same) simp_all
  then show ?thesis using GridChange by simp
next
  case (Elapse d)
  let ?due = "sort_key (\<lambda>tm. fst (snd tm)) (filter (\<lambda>tm. fst (snd tm) \<le> clock s + d) (timers s))"
  have "snapshot_ok (fire_all ?due s)"
    using assms by (rule snapshot_ok_fire_all)
  then have "snapshot_ok ((fire_all ?due s)\<lparr>clock := clock s + d\<rparr>)"
    by (rule snapshot_ok_same) simp_all
  then show ?thesis using Elapse by (simp add: elapse_def Let_def)
next
  case Unmount
  have "snapshot_ok (unmount s)"
    using assms by (rule snapshot_ok_same) (simp_all add: unmount_def)
  then show ?thesis using Unmount by simp
qed

lemma snapshot_ok_run:
  assumes "snapshot_ok s"
  shows "snapshot_ok (run ins s)"
  using assms
proof (induction ins arbitrary: s)
  case Nil
  then show ?case by (simp add: run_def)
next
  case (Cons i ins)
  have "snapshot_ok (run ins (step i s))"
    using Cons.prems by (intro Cons.IH snapshot_ok_step)
  then show ?case by (simp add: run_def)
qed

lemma snapshot_ok_initial: "snapshot_ok (initialApp g rows)"
  by (simp add: snapshot_ok_def initialApp_def deref_def buffer_def)

lemma snapshot_kept:
  assumes "telemetryEvents s < length (heap s)" and "telemetryEvents s \<noteq> events (telemetry s)"
  shows "deref (acts as s) (telemetryEvents s) = deref s (telemetryEvents s)"
  using keeps_arrays_acts [of s as] assms by (simp add: keeps_arrays_def deref_def)

text \<open>
  C2. The consumer of the event buffer is the user interface, which is handed the state
  variable \<open>telemetryEvents\<close>; the service's own array is read only inside
  \<open>sendTelemetryEvent\<close>, to copy it and to take its length. In every state the
  component can reach, the array in \<open>telemetryEvents\<close> is not the service's array but
  another one with the contents the buffer has at that moment, and nothing that happens
  later (inputs to the component, timeouts firing, direct \<open>send\<close> and \<open>clear\<close> calls
  on the service) changes the contents of that array.
\<close>

theorem snapshot_is_a_copy:
  "(let s = run ins (initialApp g rows)
    in telemetryEvents s \<noteq> events (telemetry s)
       \<and> deref s (telemetryEvents s) = buffer s
       \<and> (\<forall>as. deref (acts as s) (telemetryEvents s) = deref s (telemetryEvents s)))"
proof -
  have "snapshot_ok (run ins (initialApp g rows))"
    using snapshot_ok_initial by (rule snapshot_ok_run)
  then show ?thesis
    by (simp add: Let_def snapshot_ok_def snapshot_kept)
qed

theorem snapshot_is_a_copy_witness:
  "telemetryEvents after_send \<noteq> events (telemetry after_send)
   \<and> deref after_send (telemetryEvents after_send) = buffer after_send
   \<and> map eventType (buffer after_send) = [''row_selected'', ''grid_initialized'']
   \<and> deref (acts later_actions after_send) (telemetryEvents after_send) =
       deref after_send (telemetryEvents after_send)
   \<and> buffer (acts later_actions after_send) = []"
proof -
  have b: "map eventType (buffer after_send) = [''row_selected'', ''grid_initialized'']"
    by (simp add: after_send_def sample_defs buffer_def handler_defs service_defs Let_def)
  have c: "buffer (acts later_actions after_send) = []"
    by (simp add: after_send_def sample_defs payload_A_def buffer_def later_actions_def acts_def
        handler_defs service_defs Let_def)
  show ?thesis
    using snapshot_is_a_copy
      [of "[GridReady, GridChange (two_rows [row_A]), RowSelectedEv (selected_ev row_A)]"
          "two_rows []" "[row_A, row_B]"] b c
    by (simp add: Let_def after_send_def)
qed

section \<open>The scroll tracker\<close>

lemma tracker_ok_timers:
  assumes "tracker_ok s"
  shows "(case scrollTimeoutRef s of None \<Rightarrow> s | Some h \<Rightarrow> if h \<noteq> 0 then clearTimeout h s else s)
           = s\<lparr>timers := []\<rparr>"
proof (cases "scrollTimeoutRef s")
  case None
  then have "timers s = []"
    using assms by (cases "timers s") (auto simp: tracker_ok_def)
  then show ?thesis using None by simp
next
  case (Some h)
  show ?thesis
  proof (cases "h = 0")
    case True
    then have "timers s = []"
      using assms Some by (cases "timers s") (auto simp: tracker_ok_def)
    then show ?thesis using Some True by simp
  next
    case False
    have "filter (\<lambda>tm. fst tm \<noteq> h) (timers s) = []"
      using assms Some by (auto simp: tracker_ok_def filter_empty_conv)
    then show ?thesis using Some False by (simp add: clearTimeout_def)
  qed
qed

lemma onBodyScroll_arms:
  assumes "tracker_ok s"
  shows "onBodyScroll e s =
           s\<lparr>timers := [(nextTimer s, clock s + 300, ScrollTimeout e)],
             nextTimer := nextTimer s + 1,
             scrollTimeoutRef := Some (nextTimer s)\<rparr>"
proof -
  obtain api where a: "gridApi s = Some api"
    using assms by (auto simp: tracker_ok_def)
  show ?thesis
    unfolding onBodyScroll_def Let_def
    by (simp add: a tracker_ok_timers [OF assms] setTimeout_def)
qed

lemma elapse_not_due:
  assumes "timers s = [(h, t, c)]" and "clock s + d < t"
  shows "elapse d s = s\<lparr>clock := clock s + d\<rparr>"
  using assms by (simp add: elapse_def Let_def)

lemma elapse_due:
  assumes "timers s = [(h, t, c)]" and "t \<le> clock s + d" and "clock s \<le> t"
  shows "elapse d s = (runCallback c (s\<lparr>clock := t, timers := []\<rparr>))\<lparr>clock := clock s + d\<rparr>"
  using assms by (simp add: elapse_def Let_def max_def del: runCallback.simps)

lemma run_append: "run (xs @ ys) s = run ys (run xs s)"
  by (simp add: run_def)

lemma run_Cons: "run (x # xs) s = run xs (step x s)"
  by (simp add: run_def)

lemma burst_step:
  assumes "tracker_ok s" and "d < 300"
  shows "tracker_ok (run [BodyScroll e, GridChange g, Elapse d] s)"
    and "console (run [BodyScroll e, GridChange g, Elapse d] s) = console s"
    and "uuid (run [BodyScroll e, GridChange g, Elapse d] s) = uuid s"
    and "clock (run [BodyScroll e, GridChange g, Elapse d] s) = clock s + d"
proof -
  let ?s2 = "(onBodyScroll e s)\<lparr>grid := g\<rparr>"
  have t: "timers ?s2 = [(nextTimer s, clock s + 300, ScrollTimeout e)]"
    and c: "clock ?s2 = clock s"
    by (simp_all add: onBodyScroll_arms [OF assms(1)])
  have "clock ?s2 + d < clock s + 300"
    using assms(2) by (simp add: c)
  then have r: "run [BodyScroll e, GridChange g, Elapse d] s = ?s2\<lparr>clock := clock ?s2 + d\<rparr>"
    using elapse_not_due [OF t] by (simp add: run_def)
  show "tracker_ok (run [BodyScroll e, GridChange g, Elapse d] s)"
    unfolding r using assms(1) by (simp add: onBodyScroll_arms [OF assms(1)] tracker_ok_def)
  show "console (run [BodyScroll e, GridChange g, Elapse d] s) = console s"
    unfolding r by (simp add: onBodyScroll_arms [OF assms(1)])
  show "uuid (run [BodyScroll e, GridChange g, Elapse d] s) = uuid s"
    unfolding r by (simp add: onBodyScroll_arms [OF assms(1)])
  show "clock (run [BodyScroll e, GridChange g, Elapse d] s) = clock s + d"
    unfolding r by (simp add: onBodyScroll_arms [OF assms(1)])
qed

lemma burst_run:
  assumes "tracker_ok s" and "\<forall>x \<in> set b. snd (snd x) < 300"
  shows "tracker_ok (run (burst b) s) \<and> console (run (burst b) s) = console s
         \<and> uuid (run (burst b) s) = uuid s \<and> clock (run (burst b) s) = clock s + gaps b"
  using assms
proof (induction b arbitrary: s)
  case Nil
  then show ?case by (simp add: run_def gaps_def)
next
  case (Cons x b)
  obtain e g d where x: "x = (e, g, d)"
    by (cases x)
  let ?s1 = "run [BodyScroll e, GridChange g, Elapse d] s"
  have d: "d < 300"
    using Cons.prems(2) x by simp
  have r: "run (burst (x # b)) s = run (burst b) ?s1"
    by (simp add: x run_def)
  have "tracker_ok (run (burst b) ?s1) \<and> console (run (burst b) ?s1) = console ?s1
         \<and> uuid (run (burst b) ?s1) = uuid ?s1 \<and> clock (run (burst b) ?s1) = clock ?s1 + gaps b"
    using Cons.prems(2) by (intro Cons.IH burst_step(1) [OF Cons.prems(1) d]) simp
  then show ?case
    unfolding r by (simp add: burst_step(2-4) [OF Cons.prems(1) d] gaps_def x)
qed

lemma quiet_fires_once:
  assumes "tracker_ok s" and "q1 < 300" and "300 \<le> q1 + q2"
  shows "console (run [BodyScroll e, Elapse q1, GridChange g, Elapse q2] s) =
           console s @
           [\<lparr>id_event = uuid s, eventType = ''grid_scrolled'', timestamp = clock s + 300,
             data = Grid_scrolled
                      \<lparr>scrollDirection = direction e,
                       viewport_scroll =
                         \<lparr>firstRow = getFirstDisplayedRowIndex g,
                          lastRow = getLastDisplayedRowIndex g,
                          visibleRowCount_scroll =
                            getLastDisplayedRowIndex g - getFirstDisplayedRowIndex g + 1\<rparr>,
                       scrollPosition = \<lparr>top_pos = top_ev e, left_pos = left_ev e\<rparr>\<rparr>\<rparr>]"
    and "timers (run [BodyScroll e, Elapse q1, GridChange g, Elapse q2] s) = []"
proof -
  let ?s1 = "onBodyScroll e s"
  have t1: "timers ?s1 = [(nextTimer s, clock s + 300, ScrollTimeout e)]"
    and c1: "clock ?s1 = clock s"
    by (simp_all add: onBodyScroll_arms [OF assms(1)])
  have "clock ?s1 + q1 < clock s + 300"
    using assms(2) by (simp add: c1)
  then have e1: "elapse q1 ?s1 = ?s1\<lparr>clock := clock s + q1\<rparr>"
    using elapse_not_due [OF t1] by (simp add: c1)
  let ?s3 = "?s1\<lparr>clock := clock s + q1, grid := g\<rparr>"
  have t3: "timers ?s3 = [(nextTimer s, clock s + 300, ScrollTimeout e)]"
    by (simp add: t1)
  have "clock s + 300 \<le> clock ?s3 + q2" and "clock ?s3 \<le> clock s + 300"
    using assms(2,3) by simp_all
  then have e2: "elapse q2 ?s3 =
      (runCallback (ScrollTimeout e) (?s3\<lparr>clock := clock s + 300, timers := []\<rparr>))\<lparr>clock := clock ?s3 + q2\<rparr>"
    by (rule elapse_due [OF t3])
  have r: "run [BodyScroll e, Elapse q1, GridChange g, Elapse q2] s = elapse q2 ?s3"
    by (simp add: run_def e1)
  show "console (run [BodyScroll e, Elapse q1, GridChange g, Elapse q2] s) =
           console s @
           [\<lparr>id_event = uuid s, eventType = ''grid_scrolled'', timestamp = clock s + 300,
             data = Grid_scrolled
                      \<lparr>scrollDirection = direction e,
                       viewport_scroll =
                         \<lparr>firstRow = getFirstDisplayedRowIndex g,
                          lastRow = getLastDisplayedRowIndex g,
                          visibleRowCount_scroll =
                            getLastDisplayedRowIndex g - getFirstDisplayedRowIndex g + 1\<rparr>,
                       scrollPosition = \<lparr>top_pos = top_ev e, left_pos = left_ev e\<rparr>\<rparr>\<rparr>]"
    unfolding r e2
    by (simp add: Let_def console_sendTelemetryEvent event_in_def onBodyScroll_arms [OF assms(1)])
  show "timers (run [BodyScroll e, Elapse q1, GridChange g, Elapse q2] s) = []"
    unfolding r e2
    by (simp add: Let_def frame_sendTelemetryEvent)
qed

lemma fire_all_tracker:
  "gridApi (fire_all tms s) = gridApi s \<and> nextTimer (fire_all tms s) = nextTimer s
   \<and> scrollTimeoutRef (fire_all tms s) = scrollTimeoutRef s
   \<and> set (timers (fire_all tms s)) \<subseteq> set (timers s)"
proof (induction tms arbitrary: s)
  case Nil
  show ?case by simp
next
  case (Cons tm tms)
  let ?s0 = "s\<lparr>clock := max (clock s) (fst (snd tm)),
               timers := filter (\<lambda>x. fst x \<noteq> fst tm) (timers s)\<rparr>"
  let ?s1 = "runCallback (snd (snd tm)) ?s0"
  have f: "gridApi ?s1 = gridApi s" "nextTimer ?s1 = nextTimer s"
    "scrollTimeoutRef ?s1 = scrollTimeoutRef s" "set (timers ?s1) \<subseteq> set (timers s)"
    by (cases "snd (snd tm)"; simp add: Let_def frame_sendTelemetryEvent)+
  have r: "fire_all (tm # tms) s = fire_all tms ?s1"
    by simp
  show ?case
    unfolding r using Cons.IH [of ?s1] f by auto
qed

lemma tracker_ok_frame:
  assumes "tracker_ok s" and "gridApi s' = gridApi s" and "nextTimer s' = nextTimer s"
    and "scrollTimeoutRef s' = scrollTimeoutRef s" and "set (timers s') \<subseteq> set (timers s)"
  shows "tracker_ok s'"
  using assms by (auto simp: tracker_ok_def)

lemma tracker_ok_sendTelemetryEvent:
  "tracker_ok s \<Longrightarrow> tracker_ok (snd (sendTelemetryEvent t d s))"
  by (erule tracker_ok_frame) (simp_all add: frame_sendTelemetryEvent)

lemma tracker_ok_stats: "tracker_ok (s\<lparr>stats := x\<rparr>) = tracker_ok s"
  by (simp add: tracker_ok_def)

text \<open>
  The tracker is in order once the grid is ready, and stays so under every input but the
  unmount.
\<close>

lemma tracker_ok_ready: "tracker_ok (run [GridReady] (initialApp g rows))"
  by (simp add: tracker_ok_def run_def onGridReady_def frame_sendTelemetryEvent initialApp_def)

lemma tracker_ok_step:
  assumes "tracker_ok s" and "i \<noteq> Unmount"
  shows "tracker_ok (step i s)"
proof (cases i)
  case GridReady
  have "tracker_ok (s\<lparr>gridApi := Some GridApi\<rparr>)"
    using assms(1) by (simp add: tracker_ok_def)
  then show ?thesis
    using GridReady by (simp add: onGridReady_def Let_def tracker_ok_sendTelemetryEvent)
next
  case ExtractVisible
  then show ?thesis
    using assms(1)
    by (simp add: extractVisibleRowsData_def Let_def tracker_ok_sendTelemetryEvent tracker_ok_stats
        split: option.splits)
next
  case ExtractSelected
  then show ?thesis
    using assms(1)
    by (simp add: extractSelectedRowsData_def Let_def tracker_ok_sendTelemetryEvent tracker_ok_stats
        split: option.splits)
next
  case ExtractAll
  then show ?thesis
    using assms(1)
    by (simp add: extractAllGridData_def Let_def tracker_ok_sendTelemetryEvent split: option.splits)
next
  case (RowSelectedEv e)
  then show ?thesis
    using assms(1)
    by (simp add: onRowSelected_def Let_def tracker_ok_sendTelemetryEvent tracker_ok_stats
        split: option.splits)
next
  case (BodyScroll e)
  then show ?thesis
    using assms(1) by (simp add: onBodyScroll_arms [OF assms(1)] tracker_ok_def)
next
  case ClearTelemetry
  then show ?thesis
    using assms(1)
    by (simp add: tracker_ok_def clearTelemetry_def service_defs Let_def case_prod_unfold)
next
  case (GridChange g)
  then show ?thesis
    using assms(1) by (simp add: tracker_ok_def)
next
  case (Elapse d)
  let ?due = "sort_key (\<lambda>tm. fst (snd tm)) (filter (\<lambda>tm. fst (snd tm) \<le> clock s + d) (timers s))"
  have "tracker_ok (fire_all ?due s)"
    using assms(1) fire_all_tracker [of ?due s] by (blast intro: tracker_ok_frame)
  then have "tracker_ok ((fire_all ?due s)\<lparr>clock := clock s + d\<rparr>)"
    by (simp add: tracker_ok_def)
  then show ?thesis
    using Elapse by (simp add: elapse_def Let_def)
next
  case Unmount
  then show ?thesis using assms(2) by simp
qed

lemma tracker_ok_run:
  assumes "tracker_ok s" and "Unmount \<notin> set ins"
  shows "tracker_ok (run ins s)"
  using assms
proof (induction ins arbitrary: s)
  case Nil
  then show ?case by (simp add: run_def)
next
  case (Cons i ins)
  have "tracker_ok (step i s)"
    using Cons.prems by (intro tracker_ok_step) auto
  then have "tracker_ok (run ins (step i s))"
    using Cons.prems(2) by (intro Cons.IH) auto
  then show ?case by (simp add: run_Cons)
qed

text \<open>
  C4. Let the scroll tracker be in order, and let a burst of scroll events come in, each
  less than 300 ms after the one before (the grid repainting in between), the last
  event \<open>e\<close> being followed by a quiet period of at least 300 ms during which the grid
  comes to the state \<open>g\<close>. Then exactly one event is emitted over the whole run: a
  \<open>grid_scrolled\<close> event stamped 300 ms after the last scroll event, whose viewport
  (first row, last row, and \<open>last - first + 1\<close> as the count) is read from \<open>g\<close>, the
  grid at the time the timeout fires, and whose direction and offsets are those of
  \<open>e\<close>; no timeout is left pending. Arming cancels and replaces: after any scroll
  event, whatever was pending before, the one pending timeout is the new one.
\<close>

theorem scroll_debounce:
  assumes "tracker_ok s"
    and "\<forall>x \<in> set b. snd (snd x) < 300"
    and "q1 < 300" and "300 \<le> q1 + q2"
    and "s' = run (burst b @ [BodyScroll e, Elapse q1, GridChange g, Elapse q2]) s"
  shows "console s' =
           console s @
           [\<lparr>id_event = uuid s, eventType = ''grid_scrolled'',
             timestamp = clock s + gaps b + 300,
             data = Grid_scrolled
                      \<lparr>scrollDirection = direction e,
                       viewport_scroll =
                         \<lparr>firstRow = getFirstDisplayedRowIndex g,
                          lastRow = getLastDisplayedRowIndex g,
                          visibleRowCount_scroll =
                            getLastDisplayedRowIndex g - getFirstDisplayedRowIndex g + 1\<rparr>,
                       scrollPosition = \<lparr>top_pos = top_ev e, left_pos = left_ev e\<rparr>\<rparr>\<rparr>]
         \<and> timers s' = []
         \<and> timers (onBodyScroll e0 s) = [(nextTimer s, clock s + 300, ScrollTimeout e0)]
         \<and> scrollTimeoutRef (onBodyScroll e0 s) = Some (nextTimer s)"
proof -
  let ?s1 = "run (burst b) s"
  have b: "tracker_ok ?s1" "console ?s1 = console s" "uuid ?s1 = uuid s"
    "clock ?s1 = clock s + gaps b"
    using burst_run [OF assms(1,2)] by simp_all
  have r: "s' = run [BodyScroll e, Elapse q1, GridChange g, Elapse q2] ?s1"
    using assms(5) by (simp add: run_append)
  show ?thesis
    unfolding r
    using quiet_fires_once [OF b(1) assms(3,4), of e g]
    by (simp add: b onBodyScroll_arms [OF assms(1)])
qed

lemma ready_two_tracker:
  "tracker_ok ready_two" "uuid ready_two = 1" "clock ready_two = 0" "nextTimer ready_two = 1"
  "timers ready_two = []"
  by (simp_all add: tracker_ok_def ready_two_def run_def onGridReady_def frame_sendTelemetryEvent
      initialApp_def)

theorem scroll_debounce_witness:
  "gridApi ready_two = Some GridApi \<and> timers ready_two = [] \<and> nextTimer ready_two = 1
   \<and> console (run sample_scrolling ready_two) =
       console ready_two @
         [\<lparr>id_event = 1, eventType = ''grid_scrolled'', timestamp = 400,
           data = Grid_scrolled
                    \<lparr>scrollDirection = ''vertical'',
                     viewport_scroll = \<lparr>firstRow = 3, lastRow = 7, visibleRowCount_scroll = 5\<rparr>,
                     scrollPosition = \<lparr>top_pos = 144, left_pos = 0\<rparr>\<rparr>\<rparr>]
   \<and> timers (run sample_scrolling ready_two) = []
   \<and> timers (onBodyScroll scroll_down ready_two) = [(1, 300, ScrollTimeout scroll_down)]"
proof -
  have h: "\<forall>x \<in> set sample_burst. snd (snd x) < 300"
    by (simp add: sample_burst_def)
  have q: "(100::nat) < 300" "(300::nat) \<le> 100 + 250"
    by simp_all
  have g: "gaps sample_burst = 100"
    by (simp add: gaps_def sample_burst_def)
  show ?thesis
    using scroll_debounce [OF ready_two_tracker(1) h q, OF sample_scrolling_def [THEN arg_cong, of "\<lambda>x. run x ready_two"], of scroll_down]
    by (simp add: ready_two_tracker ready_two_facts g scroll_end_def grid_over_def)
qed

text \<open>
  C5 (what the code does). The component is unmounted 100 ms after a scroll event. The
  timeout armed by that event is still pending after the unmount, and when it falls due
  its callback emits a \<open>grid_scrolled\<close> event, stamped at 300 ms, after the teardown.
\<close>

theorem pending_timeout_survives_unmount:
  "timers (run unmount_while_pending (initialApp empty_grid [])) = [(1, 300, ScrollTimeout scroll_down)]
   \<and> map (\<lambda>e. (eventType e, timestamp e))
        (console (run (unmount_while_pending @ [Elapse 200]) (initialApp empty_grid []))) =
       [(''grid_initialized'', 0), (''grid_scrolled'', 300)]"
  by (simp add: unmount_while_pending_def sample_defs handler_defs service_defs Let_def)

end
